theory Spec2Isabelle
  imports Main
begin

section \<open>Labels, elements and errors\<close>

text \<open>
  Labels are the hashable values of a Label Index: integers (as produced by
  \<^verbatim>\<open>range(n)\<close>) and strings. Hierarchical (tuple) labels are outside this development.
\<close>

datatype label = LInt int | LStr string

text \<open>The elements a buffer can hold; \<^verbatim>\<open>ENaN\<close> is the default fill value \<^verbatim>\<open>np.nan\<close>.\<close>

datatype elem = ENone | ENaN | EInt int | EStr string | EBool bool

text \<open>A \<^verbatim>\<open>KeyError\<close> carries either a message or the label that was not found.\<close>

datatype keyarg = Msg string | Lbl label

datatype error =
    RuntimeError string
  | KeyError keyarg
  | Exception string
  | NotImplementedError string
  | TypeError string
  | ValueError string
  | PicklingError string
  | IndexError
  | ShapeError
  | ConstructionError

text \<open>Sequencing of fallible steps: the first raise ends the computation.\<close>

definition ebind :: "error + 'a \<Rightarrow> ('a \<Rightarrow> error + 'b) \<Rightarrow> error + 'b" where
  "ebind m f = (case m of Inl e \<Rightarrow> Inl e | Inr x \<Rightarrow> f x)"

fun emap :: "('a \<Rightarrow> error + 'b) \<Rightarrow> 'a list \<Rightarrow> error + 'b list" where
  "emap f [] = Inr []"
| "emap f (x # xs) = ebind (f x) (\<lambda>y. ebind (emap f xs) (\<lambda>ys. Inr (y # ys)))"

section \<open>Keys\<close>

text \<open>
  Position-space keys (\<^verbatim>\<open>GetItemKeyType\<close> after label resolution): \<^verbatim>\<open>None\<close>, a single
  integer, a slice \<^verbatim>\<open>slice(start, stop)\<close> (no step), a list or integer array of
  positions, a Boolean array. Positions are the non-negative integers that label
  resolution produces.
\<close>

datatype ikey =
    KNone
  | KInt nat
  | KSlice "nat option" "nat option"
  | KList "nat list"
  | KBool "bool list"

text \<open>Label-space keys: a single label, an inclusive slice of labels, a list of labels, a Boolean array.\<close>

datatype lkey =
    LKLabel label
  | LKSlice "label option" "label option"
  | LKList "label list"
  | LKBool "bool list"

text \<open>A compound key as handed to a selection interface: one key, or a tuple of keys.\<close>

datatype 'k compound = CKey 'k | CTuple "'k list"

definition NULL_SLICE :: ikey where
  "NULL_SLICE = KSlice None None"

text \<open>\<^verbatim>\<open>isinstance(key, KEY_MULTIPLE_TYPES)\<close> with \<^verbatim>\<open>KEY_MULTIPLE_TYPES = (slice, list, np.ndarray)\<close>.\<close>

fun is_key_multiple :: "ikey \<Rightarrow> bool" where
  "is_key_multiple (KSlice a b) = True"
| "is_key_multiple (KList ps) = True"
| "is_key_multiple (KBool bs) = True"
| "is_key_multiple KNone = False"
| "is_key_multiple (KInt p) = False"

fun is_slice :: "ikey \<Rightarrow> bool" where
  "is_slice (KSlice a b) = True"
| "is_slice k = False"

text \<open>
  The positions a key selects on an axis of length \<open>n\<close>, in selection order. A slice
  clamps to the axis as Python slices do; an integer or a list entry out of range, and
  a Boolean array of the wrong length, raise \<^verbatim>\<open>IndexError\<close>.
\<close>

fun key_positions :: "ikey \<Rightarrow> nat \<Rightarrow> error + nat list" where
  "key_positions KNone n = Inr [0..<n]"
| "key_positions (KInt p) n = (if p < n then Inr [p] else Inl IndexError)"
| "key_positions (KSlice a b) n =
     Inr [min (case a of None \<Rightarrow> 0 | Some lo \<Rightarrow> lo) n ..< min (case b of None \<Rightarrow> n | Some hi \<Rightarrow> hi) n]"
| "key_positions (KList ps) n = (if list_all (\<lambda>p. p < n) ps then Inr ps else Inl IndexError)"
| "key_positions (KBool bs) n =
     (if length bs = n then Inr (filter (\<lambda>i. bs ! i) [0..<n]) else Inl IndexError)"

section \<open>Label Index\<close>

text \<open>
  Modelled from the spec: the classes \<^verbatim>\<open>Index\<close> and \<^verbatim>\<open>IndexGO\<close> of
  \<^verbatim>\<open>static_frame/core/index.py\<close>, which is not among the sources. An Index is its ordered
  label sequence and its class attribute \<^verbatim>\<open>STATIC\<close> (true for \<^verbatim>\<open>Index\<close>, false for the
  grow-only \<^verbatim>\<open>IndexGO\<close>).
\<close>

record Index =
  ix_values :: "label list"
  ix_STATIC :: bool

text \<open>
  Modelled from the spec: the Index constructor (\<open>from_labels\<close>), which ``fails with
  \<^verbatim>\<open>ConstructionError\<close> if duplicate labels detected''.
\<close>

definition Index_init :: "bool \<Rightarrow> label list \<Rightarrow> error + Index" where
  "Index_init static ls =
     (if distinct ls then Inr \<lparr>ix_values = ls, ix_STATIC = static\<rparr> else Inl ConstructionError)"

text \<open>Modelled from the spec: \<open>position_of(label)\<close>, the label-to-position dictionary.\<close>

fun position_of :: "'a list \<Rightarrow> 'a \<Rightarrow> nat option" where
  "position_of [] l = None"
| "position_of (x # xs) l = (if x = l then Some 0 else map_option Suc (position_of xs l))"

definition label_to_pos :: "Index \<Rightarrow> label \<Rightarrow> error + nat" where
  "label_to_pos ix l =
     (case position_of (ix_values ix) l of None \<Rightarrow> Inl (KeyError (Lbl l)) | Some p \<Rightarrow> Inr p)"

text \<open>
  Modelled from the spec: \<open>positions_of(key)\<close> (\<^verbatim>\<open>Index.loc_to_iloc\<close>). A single label gives
  a single position; a label slice gives the equivalent position slice, ``inclusive of
  both bounds''; a list of labels gives the list of their positions; a Boolean array is
  passed through. A label that is absent raises a \<^verbatim>\<open>KeyError\<close>.
\<close>

fun loc_to_iloc :: "Index \<Rightarrow> lkey \<Rightarrow> error + ikey" where
  "loc_to_iloc ix (LKLabel l) = ebind (label_to_pos ix l) (\<lambda>p. Inr (KInt p))"
| "loc_to_iloc ix (LKSlice a b) =
     ebind (case a of None \<Rightarrow> Inr None | Some l \<Rightarrow> ebind (label_to_pos ix l) (\<lambda>p. Inr (Some p)))
       (\<lambda>start. ebind (case b of None \<Rightarrow> Inr None
                                | Some l \<Rightarrow> ebind (label_to_pos ix l) (\<lambda>p. Inr (Some (Suc p))))
       (\<lambda>stop. Inr (KSlice start stop)))"
| "loc_to_iloc ix (LKList ls) = ebind (emap (label_to_pos ix) ls) (\<lambda>ps. Inr (KList ps))"
| "loc_to_iloc ix (LKBool bs) = Inr (KBool bs)"

text \<open>
  Modelled from the spec: \<^verbatim>\<open>Index._extract_iloc\<close>. A single position gives the bare label at
  that position; \<^verbatim>\<open>None\<close> gives the index itself; any other key gives a new Index of the
  same class over the selected labels, built by the constructor (so a selection that
  repeats a position fails there).
\<close>

datatype extracted = XLabel label | XIndex Index

fun Index_extract_iloc :: "Index \<Rightarrow> ikey \<Rightarrow> error + extracted" where
  "Index_extract_iloc ix KNone = Inr (XIndex ix)"
| "Index_extract_iloc ix (KInt p) =
     (if p < length (ix_values ix) then Inr (XLabel (ix_values ix ! p)) else Inl IndexError)"
| "Index_extract_iloc ix k =
     ebind (key_positions k (length (ix_values ix)))
       (\<lambda>ps. ebind (Index_init (ix_STATIC ix) (map (\<lambda>p. ix_values ix ! p) ps))
       (\<lambda>ix'. Inr (XIndex ix')))"

text \<open>
  Modelled from the spec: \<^verbatim>\<open>immutable_index_filter\<close> of \<^verbatim>\<open>index.py\<close>, not among the sources:
  a grow-only index is replaced by a static one over the same labels.
\<close>

definition immutable_index_filter :: "Index \<Rightarrow> Index" where
  "immutable_index_filter ix = (if ix_STATIC ix then ix else ix\<lparr>ix_STATIC := True\<rparr>)"

text \<open>Modelled from the spec: \<open>append(label)\<close> of the grow-only index, which ``fails if label already present''.\<close>

definition IndexGO_append :: "Index \<Rightarrow> label \<Rightarrow> error + Index" where
  "IndexGO_append ix l =
     (if l \<in> set (ix_values ix) then Inl (KeyError (Lbl l))
      else Inr (ix\<lparr>ix_values := ix_values ix @ [l]\<rparr>))"

section \<open>Arrays and the Block Store\<close>

text \<open>
  A NumPy array as the sources use it: one-dimensional, or two-dimensional with its row
  count and its columns (each of that many elements). The row count is kept because an
  array may have rows and no column.
\<close>

datatype ndarray = Arr1 "elem list" | Arr2 nat "elem list list"

text \<open>
  Modelled from the spec: \<^verbatim>\<open>TypeBlocks.shape_filter\<close>, not among the sources: the shape
  of a block as (rows, columns).
\<close>

fun shape_filter :: "ndarray \<Rightarrow> nat \<times> nat" where
  "shape_filter (Arr1 xs) = (length xs, 1)"
| "shape_filter (Arr2 r cs) = (r, length cs)"

fun array_columns :: "ndarray \<Rightarrow> elem list list" where
  "array_columns (Arr1 xs) = [xs]"
| "array_columns (Arr2 r cs) = cs"

text \<open>
  Modelled from the spec: \<^verbatim>\<open>column_2d_filter\<close> of \<^verbatim>\<open>util.py\<close>, not among the sources: a
  one-dimensional array is presented as a two-dimensional column.
\<close>

fun column_2d_filter :: "ndarray \<Rightarrow> ndarray" where
  "column_2d_filter (Arr1 xs) = Arr2 (length xs) [xs]"
| "column_2d_filter (Arr2 r cs) = Arr2 r cs"

text \<open>An array is rectangular: every column of a two-dimensional array has the array's row count.\<close>

fun array_wf :: "ndarray \<Rightarrow> bool" where
  "array_wf (Arr1 xs) = True"
| "array_wf (Arr2 r cs) = list_all (\<lambda>c. length c = r) cs"

text \<open>\<^verbatim>\<open>np.full(shape, value)\<close>.\<close>

definition np_full :: "nat \<times> nat \<Rightarrow> elem \<Rightarrow> ndarray" where
  "np_full shape v = Arr2 (fst shape) (replicate (snd shape) (replicate (fst shape) v))"


fun is_2d :: "ndarray \<Rightarrow> bool" where
  "is_2d (Arr1 xs) = False"
| "is_2d (Arr2 r cs) = True"


text \<open>
  Modelled from the spec: the class \<^verbatim>\<open>TypeBlocks\<close> of \<^verbatim>\<open>static_frame/core/type_blocks.py\<close>,
  which is not among the sources: ``an ordered sequence of typed buffers (1D, representing
  one column, or 2D, representing multiple adjacent columns), plus derived total shape
  \<open>(row_count, column_count)\<close>''. Element types are not modelled: every buffer holds the
  universal object type.
\<close>

record TypeBlocks =
  tb_blocks :: "ndarray list"
  tb_shape :: "nat \<times> nat"

text \<open>The column-value interface: the columns of all blocks, in order.\<close>

definition tb_columns :: "TypeBlocks \<Rightarrow> elem list list" where
  "tb_columns tb = concat (map array_columns (tb_blocks tb))"

text \<open>The property \<^verbatim>\<open>values\<close>: the whole store as one two-dimensional array.\<close>

definition tb_values :: "TypeBlocks \<Rightarrow> ndarray" where
  "tb_values tb = Arr2 (fst (tb_shape tb)) (tb_columns tb)"

text \<open>
  The spec's invariant of a Block Store: ``sum of per-block column widths equals total
  column count; every block has identical row_count equal to the table row_count''.
\<close>

definition tb_wf :: "TypeBlocks \<Rightarrow> bool" where
  "tb_wf tb \<longleftrightarrow>
     list_all (\<lambda>b. array_wf b \<and> fst (shape_filter b) = fst (tb_shape tb)) (tb_blocks tb)
     \<and> sum_list (map (\<lambda>b. snd (shape_filter b)) (tb_blocks tb)) = snd (tb_shape tb)"

text \<open>
  Modelled from the spec: \<open>from_blocks\<close>, which ``validates uniform row_count across all
  input buffers; fails with \<^verbatim>\<open>ShapeError\<close> otherwise''. The shape is derived from the
  buffers, so no buffer gives the shape \<open>(0, 0)\<close>.
\<close>

definition from_blocks :: "ndarray list \<Rightarrow> error + TypeBlocks" where
  "from_blocks raw_blocks =
     (case raw_blocks of
        [] \<Rightarrow> Inr \<lparr>tb_blocks = [], tb_shape = (0, 0)\<rparr>
      | b # rest \<Rightarrow>
          if list_all (\<lambda>x. fst (shape_filter x) = fst (shape_filter b)) rest
          then Inr \<lparr>tb_blocks = raw_blocks,
                    tb_shape = (fst (shape_filter b),
                                sum_list (map (\<lambda>x. snd (shape_filter x)) raw_blocks))\<rparr>
          else Inl ShapeError)"

text \<open>
  Modelled from the spec: \<^verbatim>\<open>TypeBlocks.from_none(shape)\<close>, the store of a given shape that
  holds no element (one of the two counts is zero).
\<close>

definition from_none :: "nat \<times> nat \<Rightarrow> error + TypeBlocks" where
  "from_none shape =
     (if fst shape = 0 \<or> snd shape = 0 then Inr \<lparr>tb_blocks = [], tb_shape = shape\<rparr>
      else Inl (RuntimeError ''from_none requires a zero-sized shape''))"

datatype cut = Element elem | Blocks TypeBlocks

fun key_is_int :: "ikey \<Rightarrow> bool" where
  "key_is_int (KInt p) = True"
| "key_is_int k = False"

text \<open>
  Modelled from the spec: \<open>extract(row_key, column_key)\<close> (\<^verbatim>\<open>TypeBlocks._extract\<close>),
  ``position-based extraction; row_key/column_key each may be \<^verbatim>\<open>None\<close> (all), a single
  integer, a slice, or an integer/boolean array. Returns a scalar when both keys select
  exactly one element outside of slice/array form; otherwise returns a new Block Store
  restricted to the selected sub-blocks''.
\<close>

definition tb_extract :: "TypeBlocks \<Rightarrow> ikey \<Rightarrow> ikey \<Rightarrow> error + cut" where
  "tb_extract tb row_key column_key =
     ebind (key_positions row_key (fst (tb_shape tb))) (\<lambda>rs.
     ebind (key_positions column_key (snd (tb_shape tb))) (\<lambda>cs.
       if key_is_int row_key \<and> key_is_int column_key
       then Inr (Element (tb_columns tb ! hd cs ! hd rs))
       else Inr (Blocks \<lparr>tb_blocks = map (\<lambda>c. Arr1 (map (\<lambda>r. tb_columns tb ! c ! r) rs)) cs,
                        tb_shape = (length rs, length cs)\<rparr>)))"

text \<open>
  Modelled from the spec: the Index Correspondence (\<^verbatim>\<open>IndexCorrespondence\<close> of
  \<^verbatim>\<open>static_frame/core/util.py\<close>, not among the sources): for a reindex from index A to
  index B, for each position of B the matching source position in A, or none.
\<close>

type_synonym IndexCorrespondence = "nat option list"

definition from_correspondence :: "Index \<Rightarrow> Index \<Rightarrow> IndexCorrespondence" where
  "from_correspondence src_index dst_index =
     map (position_of (ix_values src_index)) (ix_values dst_index)"

fun ic_in_range :: "nat \<Rightarrow> nat option \<Rightarrow> bool" where
  "ic_in_range n None = True"
| "ic_in_range n (Some p) = (p < n)"

fun resize_cell :: "elem list list \<Rightarrow> elem \<Rightarrow> nat option \<Rightarrow> nat option \<Rightarrow> elem" where
  "resize_cell cols fill (Some c) (Some r) = cols ! c ! r"
| "resize_cell cols fill c r = fill"

text \<open>
  Modelled from the spec: \<open>resize(index_correspondence_rows, index_correspondence_columns,
  fill_value)\<close> (\<^verbatim>\<open>TypeBlocks.resize_blocks\<close>), which ``produces a reindexed store:
  positions with a match copy the source value; positions without a match take
  \<open>fill_value\<close>''. An absent correspondence leaves that axis as it is. The reindexed table
  is yielded as one two-dimensional buffer; a matched source position outside the store
  raises \<^verbatim>\<open>IndexError\<close>, as NumPy indexing does.
\<close>

definition resize_blocks ::
  "TypeBlocks \<Rightarrow> IndexCorrespondence option \<Rightarrow> IndexCorrespondence option \<Rightarrow> elem
     \<Rightarrow> error + ndarray list" where
  "resize_blocks tb index_ic columns_ic fill_value =
     (let rows = (case index_ic of None \<Rightarrow> map Some [0..<fst (tb_shape tb)] | Some ic \<Rightarrow> ic);
          cols = (case columns_ic of None \<Rightarrow> map Some [0..<snd (tb_shape tb)] | Some ic \<Rightarrow> ic)
      in if list_all (ic_in_range (fst (tb_shape tb))) rows
            \<and> list_all (ic_in_range (snd (tb_shape tb))) cols
         then Inr [Arr2 (length rows)
                     (map (\<lambda>c. map (\<lambda>r. resize_cell (tb_columns tb) fill_value c r) rows) cols)]
         else Inl IndexError)"

section \<open>Series\<close>

text \<open>
  Modelled from the spec: the labelled one-dimensional vector (\<^verbatim>\<open>Series\<close> of
  \<^verbatim>\<open>static_frame/core/series.py\<close>, not among the sources): its values, its index and its
  name. The constructor refuses values and an index of different lengths.
\<close>

record Series =
  s_values :: "elem list"
  s_index :: Index
  s_name :: "label option"

definition Series_init :: "elem list \<Rightarrow> Index \<Rightarrow> label option \<Rightarrow> error + Series" where
  "Series_init vs index name =
     (if length vs = length (ix_values index)
      then Inr \<lparr>s_values = vs, s_index = index, s_name = name\<rparr>
      else Inl ShapeError)"

text \<open>
  Modelled from the spec: \<^verbatim>\<open>Series.reindex(index, fill_value)\<close>: the values are realigned by
  label onto the target index, a target label without a source match taking the fill value.
\<close>

fun reindex_value :: "elem list \<Rightarrow> elem \<Rightarrow> nat option \<Rightarrow> elem" where
  "reindex_value vs fill None = fill"
| "reindex_value vs fill (Some p) = vs ! p"

definition Series_reindex :: "Series \<Rightarrow> Index \<Rightarrow> elem \<Rightarrow> error + Series" where
  "Series_reindex s index fill_value =
     ebind (Index_init True (ix_values index)) (\<lambda>ix.
       let ic = from_correspondence (s_index s) ix
       in if list_all (ic_in_range (length (s_values s))) ic
          then Inr \<lparr>s_values = map (reindex_value (s_values s) fill_value) ic,
                    s_index = ix, s_name = s_name s\<rparr>
          else Inl IndexError)"

section \<open>Frame\<close>

text \<open>
  The two classes: \<^verbatim>\<open>Frame\<close>, whose \<^verbatim>\<open>_COLUMN_CONSTRUCTOR\<close> is the static \<^verbatim>\<open>Index\<close>, and
  \<^verbatim>\<open>FrameGO\<close>, whose \<^verbatim>\<open>_COLUMN_CONSTRUCTOR\<close> is the grow-only \<^verbatim>\<open>IndexGO\<close>.
\<close>

datatype frame_class = ClsFrame | ClsFrameGO

fun COLUMN_CONSTRUCTOR_STATIC :: "frame_class \<Rightarrow> bool" where
  "COLUMN_CONSTRUCTOR_STATIC ClsFrame = True"
| "COLUMN_CONSTRUCTOR_STATIC ClsFrameGO = False"

text \<open>The slots of a Frame, and the class of the object.\<close>

record Frame =
  f_blocks :: TypeBlocks
  f_columns :: Index
  f_index :: Index
  f_name :: "label option"
  f_class :: frame_class

text \<open>
  The \<^verbatim>\<open>data\<close> argument of the constructor: a \<^verbatim>\<open>TypeBlocks\<close>, an array, a dictionary,
  \<^verbatim>\<open>None\<close>, a single element, or a sequence, given as the array \<^verbatim>\<open>np.array(data)\<close>
  builds from it.
\<close>

datatype frame_data =
    DataTypeBlocks TypeBlocks
  | DataArray ndarray
  | DataDict
  | DataNone
  | DataScalar elem
  | DataSequence ndarray

text \<open>An \<^verbatim>\<open>index\<close> or \<^verbatim>\<open>columns\<close> argument: \<^verbatim>\<open>None\<close>, an Index object, or a sequence of labels.\<close>

datatype index_init = InitNone | InitIndex Index | InitLabels "label list"

text \<open>The deferred \<^verbatim>\<open>blocks_constructor\<close>: from no data, or from a single element scaled to the shape.\<close>

datatype blocks_constructor = FromNone | FromFull elem

definition run_blocks_constructor :: "blocks_constructor \<Rightarrow> nat \<times> nat \<Rightarrow> error + TypeBlocks" where
  "run_blocks_constructor bc shape =
     (case bc of FromNone \<Rightarrow> from_none shape | FromFull v \<Rightarrow> from_blocks [np_full shape v])"

text \<open>
  \<^verbatim>\<open>Frame.__init__\<close>, blocks assignment (lines 815 to 848). A string is sized, so it goes
  to the last branch, where \<^verbatim>\<open>np.array\<close> gives a zero-dimensional array, which is no block.
\<close>

definition init_blocks ::
  "frame_data \<Rightarrow> index_init \<Rightarrow> index_init \<Rightarrow> bool \<Rightarrow> error + (TypeBlocks + blocks_constructor)" where
  "init_blocks data index columns own_data =
     (case data of
        DataTypeBlocks tb \<Rightarrow>
          if own_data then Inr (Inl tb)
          else ebind (from_blocks (tb_blocks tb)) (\<lambda>b. Inr (Inl b))
      | DataArray a \<Rightarrow> ebind (from_blocks [a]) (\<lambda>b. Inr (Inl b))
      | DataDict \<Rightarrow> Inl (RuntimeError ''use Frame.from_dict to create a Frmae from a dict'')
      | DataNone \<Rightarrow>
          if columns = InitNone \<or> index = InitNone then Inr (Inr FromNone)
          else Inr (Inr (FromFull ENone))
      | DataScalar v \<Rightarrow>
          (case v of EStr t \<Rightarrow> Inl ShapeError | _ \<Rightarrow> Inr (Inr (FromFull v)))
      | DataSequence a \<Rightarrow> ebind (from_blocks [a]) (\<lambda>b. Inr (Inl b)))"

text \<open>
  \<^verbatim>\<open>Frame.__init__\<close>, index assignment (lines 853 to 876), for one axis. \<open>static\<close> is the
  class of index the axis takes (\<^verbatim>\<open>_COLUMN_CONSTRUCTOR.STATIC\<close> for the columns, true for
  the rows); \<open>own\<close> is \<^verbatim>\<open>own_columns\<close> or \<^verbatim>\<open>own_index\<close>, honoured for an Index object, the only
  way the sources pass it; \<open>count\<close> is the count the blocks gave, if they are built.
\<close>

definition default_axis :: "bool \<Rightarrow> nat option \<Rightarrow> error + Index" where
  "default_axis static count =
     Index_init static (map (\<lambda>i. LInt (int i)) [0..<(case count of None \<Rightarrow> 0 | Some c \<Rightarrow> c)])"

definition init_axis :: "bool \<Rightarrow> bool \<Rightarrow> index_init \<Rightarrow> nat option \<Rightarrow> error + Index" where
  "init_axis static own arg count =
     (case arg of
        InitIndex ix \<Rightarrow>
          if own \<or> (ix_STATIC ix \<and> static) then Inr ix
          else if ix_values ix = [] then default_axis static count
          else Index_init static (ix_values ix)
      | InitNone \<Rightarrow> default_axis static count
      | InitLabels ls \<Rightarrow>
          if ls = [] then default_axis static count else Index_init static ls)"

text \<open>
  \<^verbatim>\<open>Frame.__init__\<close> (lines 795 to 893). \<open>cls\<close> is the class being constructed. The two
  messages stand for the formatted ones of the source.
\<close>

definition Frame_init ::
  "frame_class \<Rightarrow> frame_data \<Rightarrow> index_init \<Rightarrow> index_init \<Rightarrow> label option
     \<Rightarrow> bool \<Rightarrow> bool \<Rightarrow> bool \<Rightarrow> error + Frame" where
  "Frame_init cls data index columns name own_data own_index own_columns =
     ebind (init_blocks data index columns own_data) (\<lambda>built.
     let counts = (case built of Inl tb \<Rightarrow> Some (tb_shape tb) | Inr bc \<Rightarrow> None) in
     ebind (init_axis (COLUMN_CONSTRUCTOR_STATIC cls) own_columns columns (map_option snd counts))
       (\<lambda>columns'.
     ebind (init_axis True own_index index (map_option fst counts)) (\<lambda>index'.
     ebind (case built of
              Inl tb \<Rightarrow> Inr tb
            | Inr bc \<Rightarrow>
                run_blocks_constructor bc (length (ix_values index'), length (ix_values columns')))
       (\<lambda>blocks.
     let row_count = (case built of Inl tb \<Rightarrow> fst (tb_shape tb)
                                  | Inr bc \<Rightarrow> length (ix_values index'));
         col_count = (case built of Inl tb \<Rightarrow> snd (tb_shape tb)
                                  | Inr bc \<Rightarrow> length (ix_values columns'))
     in if row_count \<noteq> 0 \<and> length (ix_values index') \<noteq> row_count
        then Inl (RuntimeError ''Index has incorrect size'')
        else if length (ix_values columns') \<noteq> col_count
        then Inl (RuntimeError ''Columns has incorrect size'')
        else Inr \<lparr>f_blocks = blocks, f_columns = columns', f_index = index',
                  f_name = name, f_class = cls\<rparr>))))"

text \<open>The property \<^verbatim>\<open>values\<close> of a Frame.\<close>

definition Frame_values :: "Frame \<Rightarrow> ndarray" where
  "Frame_values f = tb_values (f_blocks f)"

section \<open>Extraction\<close>

text \<open>\<^verbatim>\<open>Frame._extract_axis_not_multi\<close> (lines 1487 to 1498).\<close>

definition extract_axis_not_multi :: "ikey \<Rightarrow> ikey \<Rightarrow> bool \<times> bool" where
  "extract_axis_not_multi row_key column_key =
     (row_key \<noteq> KNone \<and> \<not> is_key_multiple row_key,
      column_key \<noteq> KNone \<and> \<not> is_key_multiple column_key)"

text \<open>What an extraction returns: an element, a Series or a Frame.\<close>

datatype extract_result = RElement elem | RSeries Series | RFrame Frame

text \<open>
  The axis of the result (lines 1512 to 1534): the Frame's own index for \<^verbatim>\<open>None\<close> and
  for the null slice, else what \<^verbatim>\<open>_extract_iloc\<close> gives. For a single position that is
  the bare label, which is also the name the source reads from \<^verbatim>\<open>values[key]\<close>.
\<close>

definition extract_axis :: "Index \<Rightarrow> ikey \<Rightarrow> error + extracted" where
  "extract_axis ix key =
     (if key = KNone \<or> (is_slice key \<and> key = NULL_SLICE) then Inr (XIndex ix)
      else Index_extract_iloc ix key)"

fun extracted_name :: "extracted \<Rightarrow> label option" where
  "extracted_name (XLabel l) = Some l"
| "extracted_name (XIndex ix) = None"

text \<open>
  A Series over an extracted axis. The source passes what \<^verbatim>\<open>_extract_iloc\<close> gave; a bare
  label there is not an index, a case the source never reaches (a single-position key on
  the other axis has already reduced the result to an element).
\<close>

definition Series_over :: "elem list \<Rightarrow> bool \<Rightarrow> extracted \<Rightarrow> label option \<Rightarrow> error + Series" where
  "Series_over vs immutable axis name =
     (case axis of
        XIndex ix \<Rightarrow> Series_init vs (if immutable then immutable_index_filter ix else ix) name
      | XLabel l \<Rightarrow> Inl (TypeError ''a label is not an index''))"

text \<open>\<^verbatim>\<open>Frame._extract\<close> (lines 1501 to 1569).\<close>

definition Frame_extract :: "Frame \<Rightarrow> ikey \<Rightarrow> ikey \<Rightarrow> error + extract_result" where
  "Frame_extract self row_key column_key =
     ebind (tb_extract (f_blocks self) row_key column_key) (\<lambda>cut.
     case cut of
       Element e \<Rightarrow> Inr (RElement e)
     | Blocks blocks \<Rightarrow>
         ebind (extract_axis (f_index self) row_key) (\<lambda>index.
         ebind (extract_axis (f_columns self) column_key) (\<lambda>columns.
         let own_columns =
               (if column_key = KNone \<or> (is_slice column_key \<and> column_key = NULL_SLICE)
                then COLUMN_CONSTRUCTOR_STATIC (f_class self) else True);
             name_row = extracted_name index;
             name_column = extracted_name columns;
             axis_nm = extract_axis_not_multi row_key column_key;
             first_row = map (\<lambda>c. c ! 0) (tb_columns blocks);
             as_series = (\<lambda>s. ebind s (\<lambda>x. Inr (RSeries x)));
             as_frame =
               (case (index, columns) of
                  (XIndex i, XIndex c) \<Rightarrow>
                    ebind (Frame_init (f_class self) (DataTypeBlocks blocks) (InitIndex i)
                             (InitIndex c) (f_name self) True True own_columns)
                      (\<lambda>f. Inr (RFrame f))
                | _ \<Rightarrow> Inl (TypeError ''a label is not an index''))
         in if tb_shape blocks = (1, 1) then
              if fst axis_nm then as_series (Series_over first_row True columns name_row)
              else if snd axis_nm then as_series (Series_over first_row False index name_column)
              else as_frame
            else if fst (tb_shape blocks) = 1 then
              if fst axis_nm then as_series (Series_over first_row True columns name_row)
              else as_frame
            else if snd (tb_shape blocks) = 1 then
              if snd axis_nm
              then as_series (Series_over (hd (array_columns (hd (tb_blocks blocks)))) False
                                index name_column)
              else as_frame
            else as_frame)))"

text \<open>\<^verbatim>\<open>Frame._extract_iloc\<close> (lines 1572 to 1578).\<close>

definition Frame_extract_iloc :: "Frame \<Rightarrow> ikey compound \<Rightarrow> error + extract_result" where
  "Frame_extract_iloc self key =
     (case key of
        CTuple [] \<Rightarrow> Frame_extract self KNone KNone
      | CTuple [row_key] \<Rightarrow> Frame_extract self row_key KNone
      | CTuple [row_key, column_key] \<Rightarrow> Frame_extract self row_key column_key
      | CTuple ks \<Rightarrow> Inl (TypeError ''_extract() takes from 1 to 3 positional arguments'')
      | CKey k \<Rightarrow> Frame_extract self k KNone)"

text \<open>
  \<^verbatim>\<open>Frame._compound_loc_to_iloc\<close> (lines 1580 to 1593): a tuple is unpacked into a row
  key and a column key (a tuple of another length fails to unpack); the column key is
  resolved first.
\<close>

definition compound_loc_to_iloc :: "Frame \<Rightarrow> lkey compound \<Rightarrow> error + (ikey \<times> ikey)" where
  "compound_loc_to_iloc self key =
     (case key of
        CTuple [loc_row_key, loc_column_key] \<Rightarrow>
          ebind (loc_to_iloc (f_columns self) loc_column_key) (\<lambda>iloc_column_key.
          ebind (loc_to_iloc (f_index self) loc_row_key) (\<lambda>iloc_row_key.
          Inr (iloc_row_key, iloc_column_key)))
      | CTuple ks \<Rightarrow> Inl (ValueError ''wrong number of values to unpack'')
      | CKey loc_row_key \<Rightarrow>
          ebind (loc_to_iloc (f_index self) loc_row_key) (\<lambda>iloc_row_key.
          Inr (iloc_row_key, KNone)))"

text \<open>\<^verbatim>\<open>Frame._compound_loc_to_getitem_iloc\<close> (lines 1595 to 1602).\<close>

definition compound_loc_to_getitem_iloc :: "Frame \<Rightarrow> lkey compound \<Rightarrow> error + (ikey \<times> ikey)" where
  "compound_loc_to_getitem_iloc self key =
     (case key of
        CTuple ks \<Rightarrow> Inl (KeyError (Msg ''__getitem__ does not support multiple indexers''))
      | CKey k \<Rightarrow>
          ebind (loc_to_iloc (f_columns self) k) (\<lambda>iloc_column_key.
          Inr (KNone, iloc_column_key)))"

text \<open>\<^verbatim>\<open>Frame._extract_loc\<close> (lines 1604 to 1607), the function behind \<^verbatim>\<open>.loc\<close>.\<close>

definition Frame_extract_loc :: "Frame \<Rightarrow> lkey compound \<Rightarrow> error + extract_result" where
  "Frame_extract_loc self key =
     ebind (compound_loc_to_iloc self key) (\<lambda>(iloc_row_key, iloc_column_key).
       Frame_extract self iloc_row_key iloc_column_key)"

text \<open>\<^verbatim>\<open>Frame.__getitem__\<close> (lines 1609 to 1610).\<close>

definition Frame_getitem :: "Frame \<Rightarrow> lkey compound \<Rightarrow> error + extract_result" where
  "Frame_getitem self key =
     ebind (compound_loc_to_getitem_iloc self key) (\<lambda>(row_key, column_key).
       Frame_extract self row_key column_key)"

section \<open>Reindexing\<close>

text \<open>
  \<^verbatim>\<open>Frame.reindex\<close> (lines 1115 to 1158). An Index argument is rebuilt by its own class; a
  sequence of labels becomes an \<^verbatim>\<open>Index\<close> (rows) or the class's column index (columns).
\<close>

definition reindex_rows :: "Frame \<Rightarrow> index_init \<Rightarrow> error + (Index \<times> IndexCorrespondence option)" where
  "reindex_rows self index =
     (case index of
        InitNone \<Rightarrow> Inr (f_index self, None)
      | InitIndex ix \<Rightarrow>
          ebind (Index_init (ix_STATIC ix) (ix_values ix))
            (\<lambda>i. Inr (i, Some (from_correspondence (f_index self) i)))
      | InitLabels ls \<Rightarrow>
          ebind (Index_init True ls)
            (\<lambda>i. Inr (i, Some (from_correspondence (f_index self) i))))"

definition reindex_columns :: "Frame \<Rightarrow> index_init \<Rightarrow> error + (Index \<times> IndexCorrespondence option)" where
  "reindex_columns self columns =
     (case columns of
        InitNone \<Rightarrow> Inr (f_columns self, None)
      | InitIndex ix \<Rightarrow>
          if ix_STATIC ix \<noteq> COLUMN_CONSTRUCTOR_STATIC (f_class self)
          then Inl (Exception ''static status of index does not match expected column static status'')
          else ebind (Index_init (ix_STATIC ix) (ix_values ix))
                 (\<lambda>c. Inr (c, Some (from_correspondence (f_columns self) c)))
      | InitLabels ls \<Rightarrow>
          ebind (Index_init (COLUMN_CONSTRUCTOR_STATIC (f_class self)) ls)
            (\<lambda>c. Inr (c, Some (from_correspondence (f_columns self) c))))"

definition Frame_reindex :: "Frame \<Rightarrow> index_init \<Rightarrow> index_init \<Rightarrow> elem \<Rightarrow> error + Frame" where
  "Frame_reindex self index columns fill_value =
     (if index = InitNone \<and> columns = InitNone
      then Inl (Exception ''must specify one of index or columns'')
      else
        ebind (reindex_rows self index) (\<lambda>(index', index_ic).
        ebind (reindex_columns self columns) (\<lambda>(columns', columns_ic).
        ebind (resize_blocks (f_blocks self) index_ic columns_ic fill_value) (\<lambda>blocks.
        ebind (from_blocks blocks) (\<lambda>tb.
          Frame_init (f_class self) (DataTypeBlocks tb) (InitIndex index') (InitIndex columns')
            (f_name self) True False False)))))"

section \<open>Concatenation\<close>




















section \<open>Assignment\<close>

text \<open>A labelled container, and its property \<^verbatim>\<open>values\<close>.\<close>

datatype labelled = LSeries Series | LFrame Frame

fun labelled_values :: "labelled \<Rightarrow> ndarray" where
  "labelled_values (LSeries s) = Arr1 (s_values s)"
| "labelled_values (LFrame f) = Frame_values f"

text \<open>A position-space compound key: a tuple is a row key and a column key, one key is a row key.\<close>

definition unpack_iloc_key :: "ikey compound \<Rightarrow> error + (ikey \<times> ikey)" where
  "unpack_iloc_key iloc_key =
     (case iloc_key of
        CTuple [row_key, column_key] \<Rightarrow> Inr (row_key, column_key)
      | CTuple ks \<Rightarrow> Inl (ValueError ''wrong number of values to unpack'')
      | CKey k \<Rightarrow> Inr (k, KNone))"

definition target_index :: "Index \<Rightarrow> ikey \<Rightarrow> error + Index" where
  "target_index ix key =
     ebind (Index_extract_iloc ix key) (\<lambda>x.
       case x of XIndex i \<Rightarrow> Inr i | XLabel l \<Rightarrow> Inl (TypeError ''a label is not an index''))"

text \<open>\<^verbatim>\<open>Frame._reindex_other_like_iloc\<close> (lines 1072 to 1112).\<close>

definition reindex_other_like_iloc ::
  "Frame \<Rightarrow> labelled \<Rightarrow> ikey compound \<Rightarrow> elem \<Rightarrow> error + labelled" where
  "reindex_other_like_iloc self value iloc_key fill_value =
     ebind (unpack_iloc_key iloc_key) (\<lambda>(row_key, column_key).
     let nm = extract_axis_not_multi row_key column_key;
         nm_row = fst nm; nm_column = snd nm;
         refused = (\<lambda>cls. Inl (Exception (''cannot assign '' @ cls @ '' with key configuration'')))
     in if nm_row \<and> \<not> nm_column then
          (case value of
             LSeries s \<Rightarrow>
               ebind (target_index (f_columns self) column_key) (\<lambda>target.
               ebind (Series_reindex s target fill_value) (\<lambda>v. Inr (LSeries v)))
           | LFrame f \<Rightarrow> refused ''Frame'')
        else if \<not> nm_row \<and> nm_column then
          (case value of
             LSeries s \<Rightarrow>
               ebind (target_index (f_index self) row_key) (\<lambda>target.
               ebind (Series_reindex s target fill_value) (\<lambda>v. Inr (LSeries v)))
           | LFrame f \<Rightarrow> refused ''Frame'')
        else if \<not> nm_row \<and> \<not> nm_column then
          (case value of
             LFrame f \<Rightarrow>
               ebind (target_index (f_columns self) column_key) (\<lambda>target_column_index.
               ebind (target_index (f_index self) row_key) (\<lambda>target_row_index.
               ebind (Frame_reindex f (InitIndex target_row_index)
                        (InitIndex target_column_index) fill_value)
                 (\<lambda>v. Inr (LFrame v))))
           | LSeries s \<Rightarrow> refused ''Series'')
        else (case value of LSeries s \<Rightarrow> refused ''Series'' | LFrame f \<Rightarrow> refused ''Frame''))"

text \<open>What is written into the selected cells: one element for all, or an array.\<close>

datatype assign_raw = RawScalar elem | RawArray ndarray

text \<open>
  Modelled from the spec: \<^verbatim>\<open>TypeBlocks.extract_iloc_assign\<close>, which ``constructs a modified
  Block Store where the selected cells are overwritten by a supplied scalar, vector, or
  another labelled container''. With \<open>nr\<close> selected rows and \<open>nc\<close> selected columns, a
  one-dimensional value runs along the selected rows when only the column key is a
  single position, and along the selected columns otherwise; a two-dimensional value
  has the shape of the selection. A value of another shape raises \<^verbatim>\<open>ShapeError\<close>.
\<close>

fun value_fits :: "assign_raw \<Rightarrow> bool \<Rightarrow> nat \<Rightarrow> nat \<Rightarrow> bool" where
  "value_fits (RawScalar v) along_rows nr nc = True"
| "value_fits (RawArray (Arr1 vs)) along_rows nr nc =
     (length vs = (if along_rows then nr else nc))"
| "value_fits (RawArray (Arr2 r cols)) along_rows nr nc =
     (r = nr \<and> length cols = nc \<and> list_all (\<lambda>c. length c = r) cols)"

fun value_cell :: "assign_raw \<Rightarrow> bool \<Rightarrow> nat \<Rightarrow> nat \<Rightarrow> elem" where
  "value_cell (RawScalar v) along_rows i j = v"
| "value_cell (RawArray (Arr1 vs)) along_rows i j = (if along_rows then vs ! i else vs ! j)"
| "value_cell (RawArray (Arr2 r cols)) along_rows i j = cols ! j ! i"

definition assigned_cell ::
  "elem list list \<Rightarrow> nat list \<Rightarrow> nat list \<Rightarrow> assign_raw \<Rightarrow> bool \<Rightarrow> nat \<Rightarrow> nat \<Rightarrow> elem" where
  "assigned_cell cols rs cs v along_rows c r =
     (case position_of cs c of
        None \<Rightarrow> cols ! c ! r
      | Some j \<Rightarrow>
          (case position_of rs r of
             None \<Rightarrow> cols ! c ! r
           | Some i \<Rightarrow> value_cell v along_rows i j))"

definition extract_iloc_assign :: "TypeBlocks \<Rightarrow> ikey compound \<Rightarrow> assign_raw \<Rightarrow> error + TypeBlocks" where
  "extract_iloc_assign tb iloc_key v =
     ebind (unpack_iloc_key iloc_key) (\<lambda>(row_key, column_key).
     ebind (key_positions row_key (fst (tb_shape tb))) (\<lambda>rs.
     ebind (key_positions column_key (snd (tb_shape tb))) (\<lambda>cs.
     let along_rows = (key_is_int column_key \<and> \<not> key_is_int row_key)
     in if value_fits v along_rows (length rs) (length cs)
        then Inr \<lparr>tb_blocks =
                     map (\<lambda>c. Arr1 (map (assigned_cell (tb_columns tb) rs cs v along_rows c)
                                       [0..<fst (tb_shape tb)]))
                         [0..<snd (tb_shape tb)],
                  tb_shape = tb_shape tb\<rparr>
        else Inl ShapeError)))"

text \<open>The value handed to an assignment: a Series, a Frame, a single element or an array.\<close>

datatype assign_value = ValSeries Series | ValFrame Frame | ValScalar elem | ValArray ndarray

text \<open>\<^verbatim>\<open>FrameAssign.__call__\<close> (lines 2655 to 2669), on the container and key the delegate holds.\<close>

definition FrameAssign_call :: "Frame \<Rightarrow> ikey compound \<Rightarrow> assign_value \<Rightarrow> elem \<Rightarrow> error + Frame" where
  "FrameAssign_call container iloc_key value fill_value =
     ebind (case value of
              ValSeries s \<Rightarrow>
                ebind (reindex_other_like_iloc container (LSeries s) iloc_key fill_value)
                  (\<lambda>v. Inr (RawArray (labelled_values v)))
            | ValFrame f \<Rightarrow>
                ebind (reindex_other_like_iloc container (LFrame f) iloc_key fill_value)
                  (\<lambda>v. Inr (RawArray (labelled_values v)))
            | ValScalar e \<Rightarrow> Inr (RawScalar e)
            | ValArray a \<Rightarrow> Inr (RawArray a)) (\<lambda>value'.
     ebind (extract_iloc_assign (f_blocks container) iloc_key value') (\<lambda>blocks.
       Frame_init (f_class container) (DataTypeBlocks blocks) (InitIndex (f_index container))
         (InitIndex (f_columns container)) (f_name container) True False False))"

section \<open>Growing a FrameGO\<close>

text \<open>
  Modelled from the spec: \<^verbatim>\<open>TypeBlocks.append\<close>, which extends the store by one block. A
  store without blocks and rows takes the block's row count; otherwise the block must have
  the store's row count.
\<close>

definition tb_append :: "TypeBlocks \<Rightarrow> ndarray \<Rightarrow> error + TypeBlocks" where
  "tb_append tb block =
     (if tb_blocks tb = [] \<and> fst (tb_shape tb) = 0
      then Inr \<lparr>tb_blocks = [block],
                tb_shape = (fst (shape_filter block), snd (tb_shape tb) + snd (shape_filter block))\<rparr>
      else if fst (shape_filter block) = fst (tb_shape tb)
      then Inr \<lparr>tb_blocks = tb_blocks tb @ [block],
                tb_shape = (fst (tb_shape tb), snd (tb_shape tb) + snd (shape_filter block))\<rparr>
      else Inl ShapeError)"

text \<open>
  The value of a new column: a Series, an array, a generator (given by what it yields), a
  single element or string, or another sequence (given as the array \<^verbatim>\<open>np.array\<close> builds).
\<close>

datatype column_value =
    ColSeries Series
  | ColArray ndarray
  | ColGenerator "elem list"
  | ColScalar elem
  | ColSequence ndarray

text \<open>The block \<^verbatim>\<open>__setitem__\<close> appends for a value (lines 2544 to 2568).\<close>

definition setitem_block :: "Frame \<Rightarrow> column_value \<Rightarrow> elem \<Rightarrow> error + ndarray" where
  "setitem_block self value fill_value =
     (let row_count = length (ix_values (f_index self));
          sized = (\<lambda>a. if is_2d a \<or> fst (shape_filter a) \<noteq> row_count
                       then Inl (RuntimeError ''incorrectly sized, unindexed value'')
                       else Inr a)
      in case value of
           ColSeries s \<Rightarrow>
             ebind (Series_reindex s (f_index self) fill_value) (\<lambda>v. Inr (Arr1 (s_values v)))
         | ColArray a \<Rightarrow> sized a
         | ColGenerator vs \<Rightarrow> Inr (Arr1 vs)
         | ColScalar v \<Rightarrow> Inr (Arr1 (replicate row_count v))
         | ColSequence a \<Rightarrow> sized a)"

text \<open>
  \<^verbatim>\<open>FrameGO.__setitem__\<close> (lines 2531 to 2571). The method mutates the object: the model
  returns the error raised, if any, and the object as the call leaves it. Only a
  \<^verbatim>\<open>FrameGO\<close> has the method.
\<close>

definition FrameGO_setitem :: "Frame \<Rightarrow> label \<Rightarrow> column_value \<Rightarrow> elem \<Rightarrow> error option \<times> Frame" where
  "FrameGO_setitem self key value fill_value =
     (if f_class self \<noteq> ClsFrameGO
      then (Some (TypeError ''object does not support item assignment''), self)
      else if key \<in> set (ix_values (f_columns self))
      then (Some (RuntimeError ''key already defined in columns; use .assign to get new Frame''), self)
      else
        (case setitem_block self value fill_value of
           Inl e \<Rightarrow> (Some e, self)
         | Inr block \<Rightarrow>
             (case tb_append (f_blocks self) block of
                Inl e \<Rightarrow> (Some e, self)
              | Inr tb \<Rightarrow>
                  (case IndexGO_append (f_columns self) key of
                     Inl e \<Rightarrow> (Some e, self\<lparr>f_blocks := tb\<rparr>)
                   | Inr columns \<Rightarrow> (None, self\<lparr>f_blocks := tb, f_columns := columns\<rparr>)))))"

section \<open>Iteration delegates: sequential and parallel apply\<close>

text \<open>
  The objects an iteration hands to a user function: labels (keys), elements, and tuples
  of objects (an array or a row of values is a tuple of elements; a key-value pair is a
  tuple of two objects).
\<close>

datatype pyobj = OLabel label | OElem elem | OTuple "pyobj list"

text \<open>
  \<^verbatim>\<open>CallableOrMapping\<close>: a callable receives its positional arguments and returns or raises;
  a mapping is its items. A callable also has the place of its definition: \<^verbatim>\<open>pickle\<close>
  serialises a function by its qualified name, so a function defined at the top level of
  a module can be sent to another process, and a \<^verbatim>\<open>lambda\<close> or a nested function cannot.
\<close>

datatype scope = TopLevel | Local

datatype func = Callable scope "pyobj list \<Rightarrow> error + pyobj" | Mapping "(pyobj \<times> pyobj) list"

datatype IterNodeType = VALUES | ITEMS

text \<open>The bound methods \<^verbatim>\<open>__contains__\<close> and \<^verbatim>\<open>__getitem__\<close> of a mapping.\<close>

definition mapping_contains :: "(pyobj \<times> pyobj) list \<Rightarrow> pyobj \<Rightarrow> bool" where
  "mapping_contains m v = (map_of m v \<noteq> None)"

definition mapping_getitem :: "(pyobj \<times> pyobj) list \<Rightarrow> pyobj list \<Rightarrow> error + pyobj" where
  "mapping_getitem m args =
     (case args of
        [k] \<Rightarrow> (case map_of m k of None \<Rightarrow> Inl (KeyError (Msg ''key not in mapping'')) | Some v \<Rightarrow> Inr v)
      | _ \<Rightarrow> Inl (TypeError ''__getitem__() takes exactly one argument''))"

text \<open>
  \<^verbatim>\<open>if not callable(func): func = getattr(func, '__getitem__')\<close>, then the call of
  \<^verbatim>\<open>func\<close> on its arguments.
\<close>

fun call :: "func \<Rightarrow> pyobj list \<Rightarrow> error + pyobj" where
  "call (Callable sc f) args = f args"
| "call (Mapping m) args = mapping_getitem m args"

text \<open>
  Whether \<^verbatim>\<open>pickle\<close> can serialise the function a task carries: a top-level function, or
  the bound method \<^verbatim>\<open>__getitem__\<close> of a mapping (pickled with the mapping).
\<close>

fun picklable :: "func \<Rightarrow> bool" where
  "picklable (Callable TopLevel f) = True"
| "picklable (Callable Local f) = False"
| "picklable (Mapping m) = True"

text \<open>
  A generator of key-result pairs, as its consumer sees it: the pairs it yields, and the
  error that ends it, if one does.
\<close>

type_synonym items_stream = "(pyobj \<times> pyobj) list \<times> error option"

text \<open>
  \<^verbatim>\<open>IterNodeDelegate.apply_iter_items\<close> (lines 91 to 122): one step for an item \<open>(k, v)\<close> of
  \<^verbatim>\<open>self._func_items()\<close>, and the generator over all items.
\<close>

definition apply_item :: "IterNodeType \<Rightarrow> func \<Rightarrow> pyobj \<Rightarrow> pyobj \<Rightarrow> error + pyobj" where
  "apply_item yield_type fn k v =
     (let yt_is_values = (yield_type = VALUES);
          unmapped = (case fn of Callable sc f \<Rightarrow> False | Mapping m \<Rightarrow> \<not> mapping_contains m v)
      in if unmapped then
           (if yt_is_values then Inr v else Inr (OTuple [k, v]))
         else
           (if yt_is_values then call fn [v] else call fn [k, v]))"

fun apply_iter_items :: "IterNodeType \<Rightarrow> (pyobj \<times> pyobj) list \<Rightarrow> func \<Rightarrow> items_stream" where
  "apply_iter_items yield_type [] fn = ([], None)"
| "apply_iter_items yield_type ((k, v) # rest) fn =
     (case apply_item yield_type fn k v of
        Inl e \<Rightarrow> ([], Some e)
      | Inr r \<Rightarrow> (let (ys, e) = apply_iter_items yield_type rest fn in ((k, r) # ys, e)))"

text \<open>
  The two executors of \<^verbatim>\<open>concurrent.futures\<close>, by their documented contract. Both refuse
  \<^verbatim>\<open>max_workers\<close> that is not positive (\<^verbatim>\<open>None\<close> takes a default).
\<close>

datatype executor = ThreadPoolExecutor | ProcessPoolExecutor

definition executor_init :: "executor \<Rightarrow> int option \<Rightarrow> error + executor" where
  "executor_init pool_executor max_workers =
     (case max_workers of
        None \<Rightarrow> Inr pool_executor
      | Some w \<Rightarrow>
          if w \<le> 0 then Inl (ValueError ''max_workers must be greater than 0'')
          else Inr pool_executor)"

text \<open>
  \<^verbatim>\<open>_get_chunks\<close>: the arguments in chunks of \<^verbatim>\<open>chunksize\<close>, the last one possibly shorter.
\<close>

function get_chunks :: "nat \<Rightarrow> 'a list \<Rightarrow> 'a list list" where
  "get_chunks chunksize xs =
     (if chunksize = 0 \<or> xs = [] then []
      else take chunksize xs # get_chunks chunksize (drop chunksize xs))"
  by pat_completeness auto

termination
  by (relation "measure (\<lambda>(chunksize, xs). length xs)") auto

declare get_chunks.simps [simp del]

text \<open>
  The tasks \<^verbatim>\<open>Executor.map\<close> submits, all at once: \<^verbatim>\<open>ThreadPoolExecutor\<close> submits one task
  for each argument and ignores \<^verbatim>\<open>chunksize\<close>; \<^verbatim>\<open>ProcessPoolExecutor\<close> submits one task for
  each chunk of arguments.
\<close>

fun submitted :: "executor \<Rightarrow> int \<Rightarrow> 'a list \<Rightarrow> 'a list list" where
  "submitted ThreadPoolExecutor chunksize args = map (\<lambda>a. [a]) args"
| "submitted ProcessPoolExecutor chunksize args = get_chunks (nat chunksize) args"

text \<open>
  What a worker does with a task: it calls the function on every argument of the task, in
  order, and the task's outcome is the list of the results, or the first error raised
  (\<^verbatim>\<open>_process_chunk\<close>). A worker process receives the function pickled: when the function
  cannot be pickled the task's outcome is the pickling error.
\<close>

definition work :: "executor \<Rightarrow> func \<Rightarrow> pyobj list list \<Rightarrow> error + pyobj list" where
  "work executor fn task =
     (if executor = ProcessPoolExecutor \<and> \<not> picklable fn
      then Inl (PicklingError ''cannot pickle the function'')
      else emap (call fn) task)"

text \<open>
  The workers complete the tasks in some order \<open>completion\<close> (a list of task numbers),
  each completion storing the task's outcome in the task's future.
\<close>

definition run_tasks :: "('t \<Rightarrow> 'r) \<Rightarrow> 't list \<Rightarrow> nat list \<Rightarrow> 'r option list" where
  "run_tasks job tasks completion =
     foldl (\<lambda>futures i. futures[i := Some (job (tasks ! i))]) (replicate (length tasks) None)
       completion"

text \<open>
  \<^verbatim>\<open>Executor.map(fn, iterable, chunksize)\<close>: \<^verbatim>\<open>ProcessPoolExecutor\<close> refuses a \<^verbatim>\<open>chunksize\<close>
  below one; the result is the futures of the tasks, in submission order.
\<close>

definition executor_map ::
  "executor \<Rightarrow> func \<Rightarrow> pyobj list list \<Rightarrow> int \<Rightarrow> nat list
     \<Rightarrow> error + (error + pyobj list) option list" where
  "executor_map executor fn args chunksize completion =
     (if executor = ProcessPoolExecutor \<and> chunksize < 1
      then Inl (ValueError ''chunksize must be >= 1.'')
      else Inr (run_tasks (work executor fn) (submitted executor chunksize args) completion))"

text \<open>
  \<^verbatim>\<open>zip(func_keys, results)\<close>, consumed as a generator. The results are read from the
  futures in submission order, each future giving the results of its task: pairs are
  yielded until the keys end or a future raises. A future that no worker completed is
  never ready: the generator does not return, which is the value \<open>None\<close>.
\<close>

fun zip_results :: "pyobj list \<Rightarrow> (error + pyobj list) option list \<Rightarrow> items_stream option" where
  "zip_results [] futures = Some ([], None)"
| "zip_results (k # ks) [] = Some ([], None)"
| "zip_results (k # ks) (None # futures) = None"
| "zip_results (k # ks) (Some (Inl e) # futures) = Some ([], Some e)"
| "zip_results (k # ks) (Some (Inr rs) # futures) =
     map_option (\<lambda>(ys, e). (zip (k # ks) rs @ ys, e))
       (zip_results (drop (length rs) (k # ks)) futures)"

text \<open>
  \<^verbatim>\<open>IterNodeDelegate._apply_iter_items_parallel\<close> (lines 55 to 85). The keys are collected
  while the arguments are generated, before any result is read; for an iteration of
  values the argument of a call is the value, for an iteration of items it is the pair
  \<open>(k, v)\<close>, one argument.
\<close>

definition apply_iter_items_parallel ::
  "IterNodeType \<Rightarrow> (pyobj \<times> pyobj) list \<Rightarrow> func \<Rightarrow> int option \<Rightarrow> int \<Rightarrow> bool \<Rightarrow> nat list
     \<Rightarrow> items_stream option" where
  "apply_iter_items_parallel yield_type func_items fn max_workers chunksize use_threads completion =
     (let pool_executor = (if use_threads then ThreadPoolExecutor else ProcessPoolExecutor);
          yt_is_values = (yield_type = VALUES);
          func_keys = map fst func_items;
          arg_gen = (if yt_is_values then map (\<lambda>(k, v). [v]) func_items
                     else map (\<lambda>(k, v). [OTuple [k, v]]) func_items)
      in case executor_init pool_executor max_workers of
           Inl e \<Rightarrow> Some ([], Some e)
         | Inr executor \<Rightarrow>
             (case executor_map executor fn arg_gen chunksize completion of
                Inl e \<Rightarrow> Some ([], Some e)
              | Inr futures \<Rightarrow> zip_results func_keys futures))"

text \<open>
  \<^verbatim>\<open>apply\<close> (lines 137 to 151) and \<^verbatim>\<open>apply_pool\<close> (lines 154 to 178): the delegate's
  \<^verbatim>\<open>_apply_constructor\<close> consumes the generator.
\<close>

definition Delegate_apply ::
  "(items_stream \<Rightarrow> 'c) \<Rightarrow> IterNodeType \<Rightarrow> (pyobj \<times> pyobj) list \<Rightarrow> func \<Rightarrow> 'c" where
  "Delegate_apply apply_constructor yield_type func_items fn =
     apply_constructor (apply_iter_items yield_type func_items fn)"

definition Delegate_apply_pool ::
  "(items_stream \<Rightarrow> 'c) \<Rightarrow> IterNodeType \<Rightarrow> (pyobj \<times> pyobj) list \<Rightarrow> func
     \<Rightarrow> int option \<Rightarrow> int \<Rightarrow> bool \<Rightarrow> nat list \<Rightarrow> 'c option" where
  "Delegate_apply_pool apply_constructor yield_type func_items fn max_workers chunksize use_threads
       completion =
     map_option apply_constructor
       (apply_iter_items_parallel yield_type func_items fn max_workers chunksize use_threads
          completion)"

text \<open>
  Modelled from the spec: the constructors an iteration installs as \<^verbatim>\<open>_apply_constructor\<close>
  (\<^verbatim>\<open>Series.from_items\<close>, \<^verbatim>\<open>Frame.from_element_loc_items\<close>), which are not among the
  sources. They take every pair of the generator before they build: an error that ends the
  generator is the error of the call (``no partial results are returned''), and otherwise
  the container is built from the pairs.
\<close>

definition from_items :: "((pyobj \<times> pyobj) list \<Rightarrow> error + 'c) \<Rightarrow> items_stream \<Rightarrow> error + 'c" where
  "from_items build pairs =
     (case snd pairs of Some e \<Rightarrow> Inl e | None \<Rightarrow> build (fst pairs))"

section \<open>Invariants and example inputs\<close>

text \<open>
  The spec's invariant of a Frame, ``\<open>row_index.length == block_store.row_count\<close> and
  \<open>column_index.length == block_store.column_count\<close>'', together with the invariants of its
  parts: a well-formed Block Store, unique labels on both axes, a static row index and a
  column index of the class's kind.
\<close>

definition frame_inv :: "Frame \<Rightarrow> bool" where
  "frame_inv f \<longleftrightarrow>
     tb_wf (f_blocks f)
     \<and> length (ix_values (f_index f)) = fst (tb_shape (f_blocks f))
     \<and> length (ix_values (f_columns f)) = snd (tb_shape (f_blocks f))
     \<and> distinct (ix_values (f_index f))
     \<and> distinct (ix_values (f_columns f))
     \<and> ix_STATIC (f_index f)
     \<and> ix_STATIC (f_columns f) = COLUMN_CONSTRUCTOR_STATIC (f_class f)"

text \<open>
  The spec's example: a Frame of three rows \<open>('w', 'x', 'y')\<close> and three columns
  \<open>('p', 'q', 'r')\<close>, here with a two-column block and a one-column block; and the same
  table as a \<^verbatim>\<open>FrameGO\<close>.
\<close>

definition example_frame :: Frame where
  "example_frame =
     \<lparr>f_blocks = \<lparr>tb_blocks = [Arr2 3 [[EInt 1, EInt 2, EInt 3], [EInt 4, EInt 5, EInt 6]],
                               Arr1 [EStr ''a'', EStr ''b'', EStr ''c'']],
                  tb_shape = (3, 3)\<rparr>,
      f_columns = \<lparr>ix_values = [LStr ''p'', LStr ''q'', LStr ''r''], ix_STATIC = True\<rparr>,
      f_index = \<lparr>ix_values = [LStr ''w'', LStr ''x'', LStr ''y''], ix_STATIC = True\<rparr>,
      f_name = None, f_class = ClsFrame\<rparr>"

definition example_frame_go :: Frame where
  "example_frame_go =
     example_frame\<lparr>f_columns := \<lparr>ix_values = [LStr ''p'', LStr ''q'', LStr ''r''], ix_STATIC = False\<rparr>,
                   f_class := ClsFrameGO\<rparr>"

text \<open>
  What \<^verbatim>\<open>Frame(np.empty((0, 2)), index=('a', 'b'))\<close> constructs: two row labels over a
  store without rows.
\<close>

definition zero_row_frame :: Frame where
  "zero_row_frame =
     \<lparr>f_blocks = \<lparr>tb_blocks = [Arr2 0 [[], []]], tb_shape = (0, 2)\<rparr>,
      f_columns = \<lparr>ix_values = [LInt 0, LInt 1], ix_STATIC = True\<rparr>,
      f_index = \<lparr>ix_values = [LStr ''a'', LStr ''b''], ix_STATIC = True\<rparr>,
      f_name = None, f_class = ClsFrame\<rparr>"

text \<open>
  Inputs for the iteration delegates: two columns as items; the function
  \<^verbatim>\<open>lambda k, v: v\<close>; the function \<^verbatim>\<open>lambda a: a[0]\<close>; and the same function defined
  at the top level of a module, \<^verbatim>\<open>def first_of(a): return a[0]\<close>.
\<close>

definition take_value :: func where
  "take_value = Callable Local (\<lambda>args. case args of
       [k, v] \<Rightarrow> Inr v
     | _ \<Rightarrow> Inl (TypeError ''missing 1 required positional argument''))"

definition example_items :: "(pyobj \<times> pyobj) list" where
  "example_items = [(OLabel (LStr ''p''), OTuple [OElem (EInt 1), OElem (EInt 2)]),
                    (OLabel (LStr ''q''), OTuple [OElem (EInt 4), OElem (EInt 5)])]"

definition first_of :: func where
  "first_of = Callable TopLevel (\<lambda>args. case args of
       [OTuple (x # xs)] \<Rightarrow> Inr x
     | _ \<Rightarrow> Inl (TypeError ''not a sequence''))"

definition first_element :: func where
  "first_element = Callable Local (\<lambda>args. case args of
       [OTuple (x # xs)] \<Rightarrow> Inr x
     | _ \<Rightarrow> Inl (TypeError ''not a sequence''))"

text \<open>
  The classification of a label-space key: single-selecting (a bare label) or
  multiple-selecting; and the labels a key selects on an axis, in selection order.
\<close>

fun lkey_single :: "lkey \<Rightarrow> bool" where
  "lkey_single (LKLabel l) = True"
| "lkey_single k = False"

definition selected_labels :: "Index \<Rightarrow> lkey \<Rightarrow> error + label list" where
  "selected_labels ix k =
     ebind (loc_to_iloc ix k) (\<lambda>ik.
     ebind (key_positions ik (length (ix_values ix))) (\<lambda>ps.
       Inr (map (\<lambda>p. ix_values ix ! p) ps)))"



section \<open>The single-Frame-producing operations\<close>







section \<open>What an assignment from a labelled container should write\<close>

text \<open>
  The element of a Frame at a row position and a column position; the value of a Series
  at a label, and of a Frame at a row label and a column label, with the fill value where
  the label is absent. An example Series, labelled \<open>('r', 'z')\<close>, and the example Frame
  after the Series is assigned to its row \<open>'x'\<close>.
\<close>

definition Frame_cell :: "Frame \<Rightarrow> nat \<Rightarrow> nat \<Rightarrow> elem" where
  "Frame_cell f r c = tb_columns (f_blocks f) ! c ! r"

definition Series_at :: "Series \<Rightarrow> elem \<Rightarrow> label \<Rightarrow> elem" where
  "Series_at s fill_value l =
     (case position_of (ix_values (s_index s)) l of
        None \<Rightarrow> fill_value
      | Some p \<Rightarrow> s_values s ! p)"

definition Frame_at :: "Frame \<Rightarrow> elem \<Rightarrow> label \<Rightarrow> label \<Rightarrow> elem" where
  "Frame_at v fill_value row_label column_label =
     (case position_of (ix_values (f_columns v)) column_label of
        None \<Rightarrow> fill_value
      | Some c \<Rightarrow>
          (case position_of (ix_values (f_index v)) row_label of
             None \<Rightarrow> fill_value
           | Some r \<Rightarrow> Frame_cell v r c))"

text \<open>The invariant of a Series: as many values as labels, and unique labels.\<close>

definition series_inv :: "Series \<Rightarrow> bool" where
  "series_inv s \<longleftrightarrow>
     length (s_values s) = length (ix_values (s_index s)) \<and> distinct (ix_values (s_index s))"

definition example_series :: Series where
  "example_series =
     \<lparr>s_values = [EInt 10, EInt 20],
      s_index = \<lparr>ix_values = [LStr ''r'', LStr ''z''], ix_STATIC = True\<rparr>,
      s_name = None\<rparr>"

definition assigned_example :: Frame where
  "assigned_example =
     example_frame\<lparr>f_blocks := \<lparr>tb_blocks = [Arr1 [EInt 1, ENaN, EInt 3], Arr1 [EInt 4, ENaN, EInt 6],
                                            Arr1 [EStr ''a'', EInt 10, EStr ''c'']],
                                  tb_shape = (3, 3)\<rparr>\<rparr>"

section \<open>Basic facts\<close>

lemma ebind_Inl [simp]: "ebind (Inl e) f = Inl e"
  by (simp add: ebind_def)

lemma ebind_Inr [simp]: "ebind (Inr x) f = f x"
  by (simp add: ebind_def)

lemma ebind_eq_Inr: "ebind m f = Inr y \<longleftrightarrow> (\<exists>x. m = Inr x \<and> f x = Inr y)"
  by (cases m) simp_all

section \<open>The constructor and the Frame invariant\<close>

lemma run_blocks_constructor_shape:
  "run_blocks_constructor bc shape = Inr tb \<Longrightarrow> tb_shape tb = shape"
  by (cases bc) (auto simp: run_blocks_constructor_def from_none_def from_blocks_def np_full_def
      split: if_splits)

lemma Frame_init_inv:
  assumes "Frame_init cls data index columns name own_data own_index own_columns = Inr f"
  shows "length (ix_values (f_columns f)) = snd (tb_shape (f_blocks f))
         \<and> (fst (tb_shape (f_blocks f)) \<noteq> 0
              \<longrightarrow> length (ix_values (f_index f)) = fst (tb_shape (f_blocks f)))"
proof -
  from assms obtain built columns' index' blocks where
    b: "init_blocks data index columns own_data = Inr built"
    and bl: "(case built of Inl tb \<Rightarrow> Inr tb
              | Inr bc \<Rightarrow> run_blocks_constructor bc
                  (length (ix_values index'), length (ix_values columns'))) = Inr blocks"
    and r: "(let row_count = (case built of Inl tb \<Rightarrow> fst (tb_shape tb)
                                  | Inr bc \<Rightarrow> length (ix_values index'));
                 col_count = (case built of Inl tb \<Rightarrow> snd (tb_shape tb)
                                  | Inr bc \<Rightarrow> length (ix_values columns'))
             in if row_count \<noteq> 0 \<and> length (ix_values index') \<noteq> row_count
                then Inl (RuntimeError ''Index has incorrect size'')
                else if length (ix_values columns') \<noteq> col_count
                then Inl (RuntimeError ''Columns has incorrect size'')
                else Inr \<lparr>f_blocks = blocks, f_columns = columns', f_index = index',
                          f_name = name, f_class = cls\<rparr>) = Inr f"
    unfolding Frame_init_def by (auto simp: ebind_eq_Inr Let_def)
  show ?thesis
  proof (cases built)
    case (Inl tb)
    with bl have "blocks = tb" by simp
    with r Inl show ?thesis by (auto simp: Let_def split: if_splits)
  next
    case (Inr bc)
    with bl have "tb_shape blocks = (length (ix_values index'), length (ix_values columns'))"
      by (simp add: run_blocks_constructor_shape)
    with r Inr show ?thesis by (auto simp: Let_def split: if_splits)
  qed
qed

text \<open>
  Claim C5, as stated, fails: the constructor compares the length of the row index with the
  store's row count only when that count is not zero (``row count might be 0 for an empty
  DF''). \<^verbatim>\<open>Frame(np.empty((0, 2)), index=('a', 'b'))\<close> is constructed, with two
  row labels over a store of no rows.
\<close>

theorem constructor_zero_rows_counterexample:
  "Frame_init ClsFrame (DataArray (Arr2 0 [[], []])) (InitLabels [LStr ''a'', LStr ''b''])
     InitNone None False False False = Inr zero_row_frame
   \<and> length (ix_values (f_index zero_row_frame)) = 2
   \<and> fst (tb_shape (f_blocks zero_row_frame)) = 0"
  by (simp add: Frame_init_def init_blocks_def from_blocks_def init_axis_def default_axis_def
      Index_init_def zero_row_frame_def Let_def upt_rec)

text \<open>
  Claim C5, amended: every successfully constructed Frame has as many column labels as its
  store has columns and, whenever the store has at least one row, as many row labels as
  the store has rows. When the data gives the store and non-empty, unique index and columns
  labels are supplied, the constructor raises a \<^verbatim>\<open>RuntimeError\<close> if the index length differs
  from a non-zero row count, or else if the columns length differs from the column count,
  and constructs the Frame otherwise.
\<close>

theorem constructor_invariant:
  "(Frame_init cls data index columns name own_data own_index own_columns = Inr f \<longrightarrow>
      length (ix_values (f_columns f)) = snd (tb_shape (f_blocks f))
      \<and> (fst (tb_shape (f_blocks f)) \<noteq> 0
           \<longrightarrow> length (ix_values (f_index f)) = fst (tb_shape (f_blocks f))))
   \<and> (init_blocks data' (InitLabels ls) (InitLabels cs) own_data' = Inr (Inl tb)
        \<and> distinct ls \<and> distinct cs \<and> ls \<noteq> [] \<and> cs \<noteq> [] \<longrightarrow>
      Frame_init cls data' (InitLabels ls) (InitLabels cs) name own_data' own_index' own_columns' =
        (if fst (tb_shape tb) \<noteq> 0 \<and> length ls \<noteq> fst (tb_shape tb)
         then Inl (RuntimeError ''Index has incorrect size'')
         else if length cs \<noteq> snd (tb_shape tb)
         then Inl (RuntimeError ''Columns has incorrect size'')
         else Inr \<lparr>f_blocks = tb,
                   f_columns = \<lparr>ix_values = cs, ix_STATIC = COLUMN_CONSTRUCTOR_STATIC cls\<rparr>,
                   f_index = \<lparr>ix_values = ls, ix_STATIC = True\<rparr>,
                   f_name = name, f_class = cls\<rparr>))"
proof -
  have inv: "Frame_init cls data index columns name own_data own_index own_columns = Inr f \<longrightarrow>
      length (ix_values (f_columns f)) = snd (tb_shape (f_blocks f))
      \<and> (fst (tb_shape (f_blocks f)) \<noteq> 0
           \<longrightarrow> length (ix_values (f_index f)) = fst (tb_shape (f_blocks f)))"
    using Frame_init_inv by blast
  have chk: "init_blocks data' (InitLabels ls) (InitLabels cs) own_data' = Inr (Inl tb)
        \<and> distinct ls \<and> distinct cs \<and> ls \<noteq> [] \<and> cs \<noteq> [] \<longrightarrow>
      Frame_init cls data' (InitLabels ls) (InitLabels cs) name own_data' own_index' own_columns' =
        (if fst (tb_shape tb) \<noteq> 0 \<and> length ls \<noteq> fst (tb_shape tb)
         then Inl (RuntimeError ''Index has incorrect size'')
         else if length cs \<noteq> snd (tb_shape tb)
         then Inl (RuntimeError ''Columns has incorrect size'')
         else Inr \<lparr>f_blocks = tb,
                   f_columns = \<lparr>ix_values = cs, ix_STATIC = COLUMN_CONSTRUCTOR_STATIC cls\<rparr>,
                   f_index = \<lparr>ix_values = ls, ix_STATIC = True\<rparr>,
                   f_name = name, f_class = cls\<rparr>)"
    by (simp add: Frame_init_def init_axis_def Index_init_def Let_def)
  from inv chk show ?thesis by (rule conjI)
qed

theorem constructor_invariant_witness:
  "Frame_init ClsFrame (DataArray (Arr2 1 [[EInt 1], [EInt 2]]))
     (InitLabels [LStr ''a'', LStr ''b'']) (InitLabels [LStr ''p'', LStr ''q'']) None False False False
     = Inl (RuntimeError ''Index has incorrect size'')
   \<and> Frame_init ClsFrame (DataArray (Arr2 0 [[], []])) (InitLabels [LStr ''a'', LStr ''b''])
       InitNone None False False False = Inr zero_row_frame
   \<and> length (ix_values (f_columns zero_row_frame)) = snd (tb_shape (f_blocks zero_row_frame))"
proof -
  have i: "init_blocks (DataArray (Arr2 1 [[EInt 1], [EInt 2]])) (InitLabels [LStr ''a'', LStr ''b''])
             (InitLabels [LStr ''p'', LStr ''q'']) False
           = Inr (Inl \<lparr>tb_blocks = [Arr2 1 [[EInt 1], [EInt 2]]], tb_shape = (1, 2)\<rparr>)"
    by (simp add: init_blocks_def from_blocks_def)
  have z: "Frame_init ClsFrame (DataArray (Arr2 0 [[], []])) (InitLabels [LStr ''a'', LStr ''b''])
       InitNone None False False False = Inr zero_row_frame"
    by (simp add: Frame_init_def init_blocks_def from_blocks_def init_axis_def default_axis_def
      Index_init_def zero_row_frame_def Let_def upt_rec)
  show ?thesis
    using i z
      constructor_invariant [of ClsFrame "DataArray (Arr2 0 [[], []])"
        "InitLabels [LStr ''a'', LStr ''b'']" InitNone None False False False zero_row_frame
        "DataArray (Arr2 1 [[EInt 1], [EInt 2]])" "[LStr ''a'', LStr ''b'']"
        "[LStr ''p'', LStr ''q'']" False
        "\<lparr>tb_blocks = [Arr2 1 [[EInt 1], [EInt 2]]], tb_shape = (1, 2)\<rparr>" False False]
    by simp
qed

section \<open>Direct subscription\<close>

text \<open>
  Claim C10: for every Frame and every tuple-valued key, \<^verbatim>\<open>__getitem__\<close> raises the
  \<^verbatim>\<open>KeyError\<close> ``\<^verbatim>\<open>__getitem__\<close> does not support multiple indexers''; a pair of keys is
  accepted by \<^verbatim>\<open>.iloc\<close>, which extracts with them, and by \<^verbatim>\<open>.loc\<close>, which resolves the
  two labels keys and extracts.
\<close>

theorem getitem_tuple_raises_KeyError:
  "Frame_getitem self (CTuple ks) = Inl (KeyError (Msg ''__getitem__ does not support multiple indexers''))
   \<and> Frame_extract_iloc self (CTuple [row_key, column_key]) = Frame_extract self row_key column_key
   \<and> Frame_extract_loc self (CTuple [loc_row_key, loc_column_key]) =
       ebind (loc_to_iloc (f_columns self) loc_column_key) (\<lambda>c.
       ebind (loc_to_iloc (f_index self) loc_row_key) (\<lambda>r. Frame_extract self r c))"
  by (simp add: Frame_getitem_def compound_loc_to_getitem_iloc_def Frame_extract_iloc_def
      Frame_extract_loc_def compound_loc_to_iloc_def ebind_def split: sum.splits)

section \<open>Adding a column to a FrameGO\<close>

text \<open>
  Claim C9: for every \<^verbatim>\<open>FrameGO\<close> and every label already among its columns,
  \<^verbatim>\<open>__setitem__\<close> raises the \<^verbatim>\<open>RuntimeError\<close> before anything is appended: the object is
  left exactly as it was, whatever the value and the fill value.
\<close>

theorem setitem_existing_key_rejected:
  assumes "f_class self = ClsFrameGO"
    and "key \<in> set (ix_values (f_columns self))"
  shows "FrameGO_setitem self key v fill_value =
           (Some (RuntimeError ''key already defined in columns; use .assign to get new Frame''), self)"
  using assms by (simp add: FrameGO_setitem_def)

theorem setitem_existing_key_rejected_witness:
  "f_class example_frame_go = ClsFrameGO
   \<and> LStr ''q'' \<in> set (ix_values (f_columns example_frame_go))
   \<and> FrameGO_setitem example_frame_go (LStr ''q'') (ColScalar (EInt 0)) ENaN =
       (Some (RuntimeError ''key already defined in columns; use .assign to get new Frame''),
        example_frame_go)"
proof -
  have c: "f_class example_frame_go = ClsFrameGO"
    by (simp add: example_frame_go_def)
  have k: "LStr ''q'' \<in> set (ix_values (f_columns example_frame_go))"
    by (simp add: example_frame_go_def)
  show ?thesis
    using c k setitem_existing_key_rejected [OF c k, of "ColScalar (EInt 0)" ENaN] by simp
qed

section \<open>Extraction of the whole Frame, and reindexing onto the Frame's own labels\<close>

lemma blocks_columns:
  assumes "list_all (\<lambda>b. array_wf b \<and> fst (shape_filter b) = r) bs"
  shows "length (concat (map array_columns bs)) = sum_list (map (\<lambda>b. snd (shape_filter b)) bs)
         \<and> list_all (\<lambda>c. length c = r) (concat (map array_columns bs))"
  using assms
proof (induction bs)
  case Nil
  then show ?case by simp
next
  case (Cons b bs)
  then show ?case by (cases b) auto
qed

lemma tb_wf_columns:
  assumes "tb_wf tb"
  shows "length (tb_columns tb) = snd (tb_shape tb)"
    and "list_all (\<lambda>c. length c = fst (tb_shape tb)) (tb_columns tb)"
  using assms blocks_columns [of "fst (tb_shape tb)" "tb_blocks tb"]
  by (simp_all add: tb_wf_def tb_columns_def)

lemma tb_wf_column_length:
  assumes "tb_wf tb" and "c < snd (tb_shape tb)"
  shows "length (tb_columns tb ! c) = fst (tb_shape tb)"
  using tb_wf_columns [OF assms(1)] assms(2) by (simp add: list_all_length)

lemma all_cells_columns:
  assumes "tb_wf tb"
  shows "map (\<lambda>c. map (\<lambda>r. tb_columns tb ! c ! r) [0..<fst (tb_shape tb)]) [0..<snd (tb_shape tb)]
         = tb_columns tb"
proof (rule nth_equalityI)
  show "length (map (\<lambda>c. map (\<lambda>r. tb_columns tb ! c ! r) [0..<fst (tb_shape tb)])
                 [0..<snd (tb_shape tb)]) = length (tb_columns tb)"
    using tb_wf_columns(1) [OF assms] by simp
next
  fix c
  assume "c < length (map (\<lambda>c. map (\<lambda>r. tb_columns tb ! c ! r) [0..<fst (tb_shape tb)])
                       [0..<snd (tb_shape tb)])"
  then have c: "c < snd (tb_shape tb)" by simp
  have "map (\<lambda>r. tb_columns tb ! c ! r) [0..<length (tb_columns tb ! c)] = tb_columns tb ! c"
    by (rule map_nth)
  with c tb_wf_column_length [OF assms c]
  show "map (\<lambda>c. map (\<lambda>r. tb_columns tb ! c ! r) [0..<fst (tb_shape tb)]) [0..<snd (tb_shape tb)] ! c
        = tb_columns tb ! c"
    by simp
qed

lemma position_of_nth:
  "distinct xs \<Longrightarrow> i < length xs \<Longrightarrow> position_of xs (xs ! i) = Some i"
proof (induction xs arbitrary: i)
  case Nil
  then show ?case by simp
next
  case (Cons x xs)
  then show ?case by (cases i) auto
qed

lemma position_of_self:
  assumes "distinct xs"
  shows "map (position_of xs) xs = map Some [0..<length xs]"
  by (rule nth_equalityI) (simp_all add: position_of_nth [OF assms])

lemma init_axis_same:
  assumes "distinct (ix_values c)" and "ix_STATIC c = st" and "length (ix_values c) = n"
  shows "init_axis st own (InitIndex c) (Some n) = Inr c"
  using assms by (cases c) (auto simp: init_axis_def default_axis_def Index_init_def)

lemma Frame_init_own_data:
  assumes "init_axis (COLUMN_CONSTRUCTOR_STATIC cls) own_columns columns (Some (snd (tb_shape tb))) = Inr c"
    and "init_axis True own_index index (Some (fst (tb_shape tb))) = Inr i"
    and "fst (tb_shape tb) = 0 \<or> length (ix_values i) = fst (tb_shape tb)"
    and "length (ix_values c) = snd (tb_shape tb)"
  shows "Frame_init cls (DataTypeBlocks tb) index columns name True own_index own_columns =
           Inr \<lparr>f_blocks = tb, f_columns = c, f_index = i, f_name = name, f_class = cls\<rparr>"
  using assms by (auto simp: Frame_init_def init_blocks_def Let_def)

lemma Frame_extract_both_multi:
  assumes "tb_extract (f_blocks F) row_key column_key = Inr (Blocks blocks)"
    and "extract_axis (f_index F) row_key = Inr (XIndex i)"
    and "extract_axis (f_columns F) column_key = Inr (XIndex c)"
    and "extract_axis_not_multi row_key column_key = (False, False)"
  shows "Frame_extract F row_key column_key =
           ebind (Frame_init (f_class F) (DataTypeBlocks blocks) (InitIndex i) (InitIndex c)
                    (f_name F) True True
                    (if column_key = KNone \<or> (is_slice column_key \<and> column_key = NULL_SLICE)
                     then COLUMN_CONSTRUCTOR_STATIC (f_class F) else True))
             (\<lambda>f. Inr (RFrame f))"
  using assms by (simp add: Frame_extract_def Let_def)

text \<open>
  Claim C3: for every Frame \<open>F\<close> (one that satisfies the Frame invariant), extracting
  with both keys \<^verbatim>\<open>None\<close> yields a Frame whose values (and shape), row labels and column
  labels are those of \<open>F\<close>; its name and class are those of \<open>F\<close> as well.
\<close>

theorem extract_null_identity:
  assumes "frame_inv F"
  shows "\<exists>F'. Frame_extract F KNone KNone = Inr (RFrame F')
           \<and> Frame_values F' = Frame_values F
           \<and> tb_shape (f_blocks F') = tb_shape (f_blocks F)
           \<and> f_index F' = f_index F
           \<and> f_columns F' = f_columns F
           \<and> f_name F' = f_name F
           \<and> f_class F' = f_class F"
proof -
  let ?tb = "f_blocks F"
  define blocks where
    "blocks = \<lparr>tb_blocks = map (\<lambda>c. Arr1 (map (\<lambda>r. tb_columns ?tb ! c ! r) [0..<fst (tb_shape ?tb)]))
                               [0..<snd (tb_shape ?tb)],
               tb_shape = tb_shape ?tb\<rparr>"
  let ?F' = "\<lparr>f_blocks = blocks, f_columns = f_columns F, f_index = f_index F,
              f_name = f_name F, f_class = f_class F\<rparr>"
  from assms have wf: "tb_wf ?tb"
    and li: "length (ix_values (f_index F)) = fst (tb_shape ?tb)"
    and lc: "length (ix_values (f_columns F)) = snd (tb_shape ?tb)"
    and dc: "distinct (ix_values (f_columns F))"
    and sc: "ix_STATIC (f_columns F) = COLUMN_CONSTRUCTOR_STATIC (f_class F)"
    by (simp_all add: frame_inv_def)
  have sh: "tb_shape blocks = tb_shape ?tb"
    by (simp add: blocks_def)
  have cut: "tb_extract ?tb KNone KNone = Inr (Blocks blocks)"
    by (simp add: tb_extract_def blocks_def)
  have cols: "init_axis (COLUMN_CONSTRUCTOR_STATIC (f_class F)) (COLUMN_CONSTRUCTOR_STATIC (f_class F))
                (InitIndex (f_columns F)) (Some (snd (tb_shape blocks))) = Inr (f_columns F)"
    using dc sc lc sh by (simp add: init_axis_same)
  have rows: "init_axis True True (InitIndex (f_index F)) (Some (fst (tb_shape blocks))) = Inr (f_index F)"
    by (simp add: init_axis_def)
  have init: "Frame_init (f_class F) (DataTypeBlocks blocks) (InitIndex (f_index F))
                (InitIndex (f_columns F)) (f_name F) True True (COLUMN_CONSTRUCTOR_STATIC (f_class F))
              = Inr ?F'"
    using li lc sh by (intro Frame_init_own_data cols rows) simp_all
  have res: "Frame_extract F KNone KNone = Inr (RFrame ?F')"
    using Frame_extract_both_multi [of F KNone KNone blocks "f_index F" "f_columns F"] cut init
    by (simp add: extract_axis_def extract_axis_not_multi_def)
  have "tb_columns blocks = tb_columns ?tb"
    using all_cells_columns [OF wf] by (simp add: tb_columns_def comp_def blocks_def)
  then have vals: "Frame_values ?F' = Frame_values F"
    by (simp add: Frame_values_def tb_values_def sh)
  from res vals sh show ?thesis by simp
qed

theorem extract_null_identity_witness:
  "frame_inv example_frame
   \<and> Frame_extract example_frame KNone KNone =
       Inr (RFrame (example_frame\<lparr>f_blocks := \<lparr>tb_blocks = [Arr1 [EInt 1, EInt 2, EInt 3],
              Arr1 [EInt 4, EInt 5, EInt 6], Arr1 [EStr ''a'', EStr ''b'', EStr ''c'']],
              tb_shape = (3, 3)\<rparr>\<rparr>))
   \<and> Frame_values (example_frame\<lparr>f_blocks := \<lparr>tb_blocks = [Arr1 [EInt 1, EInt 2, EInt 3],
              Arr1 [EInt 4, EInt 5, EInt 6], Arr1 [EStr ''a'', EStr ''b'', EStr ''c'']],
              tb_shape = (3, 3)\<rparr>\<rparr>) = Frame_values example_frame"
proof -
  have i: "frame_inv example_frame"
    by (simp add: frame_inv_def example_frame_def tb_wf_def)
  have e: "Frame_extract example_frame KNone KNone =
       Inr (RFrame (example_frame\<lparr>f_blocks := \<lparr>tb_blocks = [Arr1 [EInt 1, EInt 2, EInt 3],
              Arr1 [EInt 4, EInt 5, EInt 6], Arr1 [EStr ''a'', EStr ''b'', EStr ''c'']],
              tb_shape = (3, 3)\<rparr>\<rparr>))"
    by (simp add: Frame_extract_def tb_extract_def extract_axis_def extract_axis_not_multi_def
        Frame_init_def init_blocks_def init_axis_def example_frame_def tb_columns_def Let_def
        upt_rec)
  show ?thesis
    using i e extract_null_identity [OF i] by auto
qed

text \<open>
  Claim C4, as stated, fails: not every Frame can be reindexed onto its own labels. The
  Frame that \<^verbatim>\<open>Frame(np.empty((0, 2)), index=('a', 'b'))\<close> constructs has two row labels
  over a store of no rows (the constructor skips the index check for a row count of zero);
  reindexing it onto its own index and columns matches both labels to source rows that the
  store does not have, and raises an \<^verbatim>\<open>IndexError\<close>.
\<close>

theorem reindex_zero_rows_counterexample:
  "Frame_init ClsFrame (DataArray (Arr2 0 [[], []])) (InitLabels [LStr ''a'', LStr ''b''])
     InitNone None False False False = Inr zero_row_frame
   \<and> Frame_reindex zero_row_frame (InitIndex (f_index zero_row_frame))
       (InitIndex (f_columns zero_row_frame)) ENaN = Inl IndexError"
proof -
  have c: "Frame_init ClsFrame (DataArray (Arr2 0 [[], []])) (InitLabels [LStr ''a'', LStr ''b''])
     InitNone None False False False = Inr zero_row_frame"
    by (simp add: Frame_init_def init_blocks_def from_blocks_def init_axis_def default_axis_def
        Index_init_def zero_row_frame_def Let_def upt_rec)
  have r: "Frame_reindex zero_row_frame (InitIndex (f_index zero_row_frame))
       (InitIndex (f_columns zero_row_frame)) ENaN = Inl IndexError"
    by (simp add: Frame_reindex_def reindex_rows_def reindex_columns_def Index_init_def
        from_correspondence_def resize_blocks_def zero_row_frame_def Let_def)
  from c r show ?thesis by (rule conjI)
qed

text \<open>
  Claim C4, amended: for every Frame \<open>F\<close> that satisfies the Frame invariant (as many row
  labels as the store has rows, as many column labels as it has columns, a well-formed
  store, unique labels), reindexing \<open>F\<close> onto its own index and its own columns succeeds,
  whatever the fill value, and yields a Frame whose labels and values are those of \<open>F\<close>.
\<close>

theorem reindex_identity:
  assumes "frame_inv F"
  shows "\<exists>F'. Frame_reindex F (InitIndex (f_index F)) (InitIndex (f_columns F)) fill_value = Inr F'
           \<and> Frame_values F' = Frame_values F
           \<and> tb_shape (f_blocks F') = tb_shape (f_blocks F)
           \<and> f_index F' = f_index F
           \<and> f_columns F' = f_columns F
           \<and> f_name F' = f_name F
           \<and> f_class F' = f_class F"
proof -
  let ?tb = "f_blocks F"
  let ?n = "fst (tb_shape ?tb)"
  let ?m = "snd (tb_shape ?tb)"
  let ?tb' = "\<lparr>tb_blocks = [Arr2 ?n (tb_columns ?tb)], tb_shape = tb_shape ?tb\<rparr>"
  let ?F' = "\<lparr>f_blocks = ?tb', f_columns = f_columns F, f_index = f_index F,
              f_name = f_name F, f_class = f_class F\<rparr>"
  from assms have wf: "tb_wf ?tb"
    and li: "length (ix_values (f_index F)) = ?n"
    and lc: "length (ix_values (f_columns F)) = ?m"
    and di: "distinct (ix_values (f_index F))"
    and dc: "distinct (ix_values (f_columns F))"
    and si: "ix_STATIC (f_index F)"
    and sc: "ix_STATIC (f_columns F) = COLUMN_CONSTRUCTOR_STATIC (f_class F)"
    by (simp_all add: frame_inv_def)
  have ri: "Index_init (ix_STATIC (f_index F)) (ix_values (f_index F)) = Inr (f_index F)"
    using di by (simp add: Index_init_def)
  have rc: "Index_init (ix_STATIC (f_columns F)) (ix_values (f_columns F)) = Inr (f_columns F)"
    using dc by (simp add: Index_init_def)
  have rows: "reindex_rows F (InitIndex (f_index F)) = Inr (f_index F, Some (map Some [0..<?n]))"
    using ri li position_of_self [OF di] by (simp add: reindex_rows_def from_correspondence_def)
  have cols: "reindex_columns F (InitIndex (f_columns F)) = Inr (f_columns F, Some (map Some [0..<?m]))"
    using rc lc sc position_of_self [OF dc] by (simp add: reindex_columns_def from_correspondence_def)
  have cells: "map (\<lambda>c. map (\<lambda>r. resize_cell (tb_columns ?tb) fill_value c r) (map Some [0..<?n]))
                 (map Some [0..<?m]) = tb_columns ?tb"
    using all_cells_columns [OF wf] by (simp add: comp_def)
  have rng: "list_all (ic_in_range ?n) (map Some [0..<?n])" "list_all (ic_in_range ?m) (map Some [0..<?m])"
    by (simp_all add: list_all_iff)
  have resize: "resize_blocks ?tb (Some (map Some [0..<?n])) (Some (map Some [0..<?m])) fill_value
                = Inr [Arr2 ?n (tb_columns ?tb)]"
    unfolding resize_blocks_def Let_def using rng cells by simp
  have fb: "from_blocks [Arr2 ?n (tb_columns ?tb)] = Inr ?tb'"
    using tb_wf_columns(1) [OF wf] by (simp add: from_blocks_def)
  have ic: "init_axis (COLUMN_CONSTRUCTOR_STATIC (f_class F)) False (InitIndex (f_columns F))
              (Some (snd (tb_shape ?tb'))) = Inr (f_columns F)"
    using dc sc lc by (simp add: init_axis_same)
  have ii: "init_axis True False (InitIndex (f_index F)) (Some (fst (tb_shape ?tb'))) = Inr (f_index F)"
    using di si li by (simp add: init_axis_same)
  have init: "Frame_init (f_class F) (DataTypeBlocks ?tb') (InitIndex (f_index F))
                (InitIndex (f_columns F)) (f_name F) True False False = Inr ?F'"
    using li lc by (intro Frame_init_own_data ic ii) simp_all
  have res: "Frame_reindex F (InitIndex (f_index F)) (InitIndex (f_columns F)) fill_value = Inr ?F'"
    using rows cols resize fb init by (simp add: Frame_reindex_def)
  have vals: "Frame_values ?F' = Frame_values F"
    by (simp add: Frame_values_def tb_values_def tb_columns_def)
  from res vals show ?thesis by simp
qed

theorem reindex_identity_witness:
  "frame_inv example_frame
   \<and> Frame_reindex example_frame (InitIndex (f_index example_frame))
       (InitIndex (f_columns example_frame)) ENaN =
       Inr (example_frame\<lparr>f_blocks := \<lparr>tb_blocks = [Arr2 3 [[EInt 1, EInt 2, EInt 3],
              [EInt 4, EInt 5, EInt 6], [EStr ''a'', EStr ''b'', EStr ''c'']]],
              tb_shape = (3, 3)\<rparr>\<rparr>)
   \<and> Frame_values (example_frame\<lparr>f_blocks := \<lparr>tb_blocks = [Arr2 3 [[EInt 1, EInt 2, EInt 3],
              [EInt 4, EInt 5, EInt 6], [EStr ''a'', EStr ''b'', EStr ''c'']]],
              tb_shape = (3, 3)\<rparr>\<rparr>) = Frame_values example_frame"
proof -
  have i: "frame_inv example_frame"
    by (simp add: frame_inv_def example_frame_def tb_wf_def)
  have e: "Frame_reindex example_frame (InitIndex (f_index example_frame))
       (InitIndex (f_columns example_frame)) ENaN =
       Inr (example_frame\<lparr>f_blocks := \<lparr>tb_blocks = [Arr2 3 [[EInt 1, EInt 2, EInt 3],
              [EInt 4, EInt 5, EInt 6], [EStr ''a'', EStr ''b'', EStr ''c'']]],
              tb_shape = (3, 3)\<rparr>\<rparr>)"
    by (simp add: Frame_reindex_def reindex_rows_def reindex_columns_def Index_init_def
        from_correspondence_def resize_blocks_def from_blocks_def
        Frame_init_def init_blocks_def init_axis_def example_frame_def tb_columns_def Let_def
        upt_rec)
  show ?thesis
    using i e reindex_identity [OF i, of ENaN] by auto
qed

section \<open>Sequential and parallel apply\<close>

lemma futures_fold:
  "length (foldl (\<lambda>futures i. futures[i := Some (g i)]) fs completion) = length fs
   \<and> (\<forall>j < length fs. foldl (\<lambda>futures i. futures[i := Some (g i)]) fs completion ! j =
         (if j \<in> set completion then Some (g j) else fs ! j))"
proof (induction completion arbitrary: fs)
  case Nil
  then show ?case by simp
next
  case (Cons i rest)
  show ?case
    using Cons.IH [of "fs[i := Some (g i)]"]
    by (auto simp: nth_list_update)
qed

lemma run_tasks_complete:
  assumes "set completion = {0..<length tasks}"
  shows "run_tasks job tasks completion = map (\<lambda>t. Some (job t)) tasks"
proof (rule nth_equalityI)
  show "length (run_tasks job tasks completion) = length (map (\<lambda>t. Some (job t)) tasks)"
    using futures_fold [of "\<lambda>i. job (tasks ! i)" "replicate (length tasks) None" completion]
    by (simp add: run_tasks_def)
next
  fix j
  assume "j < length (run_tasks job tasks completion)"
  then have j: "j < length tasks"
    using futures_fold [of "\<lambda>i. job (tasks ! i)" "replicate (length tasks) None" completion]
    by (simp add: run_tasks_def)
  with assms have "j \<in> set completion" by simp
  with j show "run_tasks job tasks completion ! j = map (\<lambda>t. Some (job t)) tasks ! j"
    using futures_fold [of "\<lambda>i. job (tasks ! i)" "replicate (length tasks) None" completion]
    by (simp add: run_tasks_def)
qed

lemma get_chunks_map:
  "get_chunks c (map f xs) = map (map f) (get_chunks c xs)"
proof (induction c xs rule: get_chunks.induct)
  case (1 chunksize xs)
  show ?case
  proof (cases "chunksize = 0 \<or> xs = []")
    case True
    then show ?thesis by (auto simp: get_chunks.simps)
  next
    case False
    with 1 show ?thesis
      by (subst get_chunks.simps, subst (2) get_chunks.simps) (simp add: take_map drop_map)
  qed
qed

lemma get_chunks_one: "get_chunks (Suc 0) xs = map (\<lambda>x. [x]) xs"
proof (induction xs)
  case Nil
  then show ?case by (simp add: get_chunks.simps)
next
  case (Cons x xs)
  then show ?case by (subst get_chunks.simps) simp
qed

lemma submitted_map:
  "submitted ex c (map f xs) = map (map f) (submitted ex c xs)"
  by (cases ex) (simp_all add: get_chunks_map)

lemma emap_length: "emap f xs = Inr ys \<Longrightarrow> length ys = length xs"
  by (induction xs arbitrary: ys) (auto simp: ebind_eq_Inr)

text \<open>The sequential generator over a first run of items followed by the rest.\<close>

lemma values_chunk_error:
  assumes "emap f (map (\<lambda>(k, v). [v]) ch) = Inl e"
  shows "snd (apply_iter_items VALUES (ch @ rest) (Callable sc f)) = Some e"
  using assms
proof (induction ch)
  case Nil
  then show ?case by simp
next
  case (Cons a ch)
  obtain k v where a: "a = (k, v)" by (cases a)
  show ?case
  proof (cases "f [v]")
    case (Inl e')
    with Cons.prems a show ?thesis by (simp add: apply_item_def)
  next
    case (Inr r)
    with Cons.prems a have "emap f (map (\<lambda>(k, v). [v]) ch) = Inl e"
      by (cases "emap f (map (\<lambda>(k, v). [v]) ch)") simp_all
    with Cons.IH Inr a show ?thesis
      by (auto simp: apply_item_def split: prod.splits)
  qed
qed

lemma values_chunk_results:
  assumes "emap f (map (\<lambda>(k, v). [v]) ch) = Inr rs"
  shows "apply_iter_items VALUES (ch @ rest) (Callable sc f) =
           (zip (map fst ch) rs @ fst (apply_iter_items VALUES rest (Callable sc f)),
            snd (apply_iter_items VALUES rest (Callable sc f)))"
  using assms
proof (induction ch arbitrary: rs)
  case Nil
  then show ?case by simp
next
  case (Cons a ch)
  obtain k v where a: "a = (k, v)" by (cases a)
  from Cons.prems a obtain r rs' where r: "f [v] = Inr r"
    and rs': "emap f (map (\<lambda>(k, v). [v]) ch) = Inr rs'" and rs: "rs = r # rs'"
    by (auto simp: ebind_eq_Inr)
  from Cons.IH [OF rs'] r rs a show ?case
    by (simp add: apply_item_def split: prod.splits)
qed

lemma zip_results_chunks:
  "0 < c \<Longrightarrow>
     \<exists>ys. zip_results (map fst items)
            (map (\<lambda>t. Some (emap f t)) (get_chunks c (map (\<lambda>(k, v). [v]) items))) =
            Some (ys, snd (apply_iter_items VALUES items (Callable sc f)))
         \<and> (snd (apply_iter_items VALUES items (Callable sc f)) = None \<longrightarrow>
              ys = fst (apply_iter_items VALUES items (Callable sc f)))"
proof (induction c items rule: get_chunks.induct)
  case (1 chunksize xs)
  show ?case
  proof (cases "xs = []")
    case True
    then show ?thesis by (simp add: get_chunks.simps)
  next
    case False
    let ?g = "\<lambda>(k, v). [v]"
    let ?ch = "take chunksize xs"
    let ?rest = "drop chunksize xs"
    let ?fn = "Callable sc f"
    let ?futs = "map (\<lambda>t. Some (emap f t)) (get_chunks chunksize (map ?g ?rest))"
    from False obtain k ks where kk: "map fst xs = k # ks" by (cases xs) auto
    from 1(2) have pos: "chunksize \<noteq> 0" by simp
    have chunks: "get_chunks chunksize (map ?g xs) = map ?g ?ch # get_chunks chunksize (map ?g ?rest)"
      using False pos by (subst get_chunks.simps) (simp add: take_map drop_map)
    from 1(1) [OF _ 1(2)] False pos obtain ys' where
      ih: "zip_results (map fst ?rest) ?futs = Some (ys', snd (apply_iter_items VALUES ?rest ?fn))"
      and ih2: "snd (apply_iter_items VALUES ?rest ?fn) = None \<longrightarrow>
                  ys' = fst (apply_iter_items VALUES ?rest ?fn)"
      by auto
    have split: "apply_iter_items VALUES xs ?fn = apply_iter_items VALUES (?ch @ ?rest) ?fn"
      by simp
    show ?thesis
    proof (cases "emap f (map ?g ?ch)")
      case (Inl e)
      from values_chunk_error [OF Inl, of ?rest sc]
      have s: "snd (apply_iter_items VALUES xs ?fn) = Some e"
        by (simp only: split)
      have "zip_results (k # ks) (Some (emap f (map ?g ?ch)) # ?futs) = Some ([], Some e)"
        by (simp only: Inl zip_results.simps)
      then have "zip_results (map fst xs)
                   (map (\<lambda>t. Some (emap f t)) (get_chunks chunksize (map ?g xs))) = Some ([], Some e)"
        by (simp only: chunks kk list.map)
      with s show ?thesis by simp
    next
      case (Inr rs)
      from emap_length [OF Inr] have len: "length rs = length ?ch" by simp
      then have le: "length rs \<le> length (map fst xs)" by simp
      have dr: "drop (length rs) (map fst xs) = map fst ?rest"
        using len by (simp add: drop_map min_def)
      have "map fst xs = map fst ?ch @ map fst ?rest"
        by (simp flip: map_append)
      then have "zip (map fst xs) rs = zip (map fst ?ch @ map fst ?rest) rs"
        by (rule arg_cong)
      also have "\<dots> = zip (map fst ?ch) rs"
        using len by (simp add: zip_append1)
      finally have zp: "zip (map fst xs) rs = zip (map fst ?ch) rs" .
      from values_chunk_results [OF Inr, of ?rest sc]
      have seq: "apply_iter_items VALUES xs ?fn =
                   (zip (map fst ?ch) rs @ fst (apply_iter_items VALUES ?rest ?fn),
                    snd (apply_iter_items VALUES ?rest ?fn))"
        by (simp only: split)
      have "zip_results (k # ks) (Some (emap f (map ?g ?ch)) # ?futs)
            = map_option (\<lambda>(ys, e). (zip (k # ks) rs @ ys, e))
                (zip_results (drop (length rs) (k # ks)) ?futs)"
        by (simp only: Inr zip_results.simps)
      then have "zip_results (map fst xs)
                   (map (\<lambda>t. Some (emap f t)) (get_chunks chunksize (map ?g xs)))
            = map_option (\<lambda>(ys, e). (zip (map fst xs) rs @ ys, e))
                (zip_results (drop (length rs) (map fst xs)) ?futs)"
        by (simp only: chunks kk list.map)
      also have "\<dots> = Some (zip (map fst ?ch) rs @ ys', snd (apply_iter_items VALUES ?rest ?fn))"
        by (simp only: dr ih zp option.map prod.case)
      finally have fin: "zip_results (map fst xs)
                   (map (\<lambda>t. Some (emap f t)) (get_chunks chunksize (map ?g xs)))
            = Some (zip (map fst ?ch) rs @ ys', snd (apply_iter_items VALUES ?rest ?fn))" .
      have s1: "snd (apply_iter_items VALUES xs ?fn) = snd (apply_iter_items VALUES ?rest ?fn)"
        by (simp only: seq snd_conv)
      have s2: "fst (apply_iter_items VALUES xs ?fn)
                = zip (map fst ?ch) rs @ fst (apply_iter_items VALUES ?rest ?fn)"
        by (simp only: seq fst_conv)
      show ?thesis
      proof (intro exI conjI impI)
        show "zip_results (map fst xs)
                (map (\<lambda>t. Some (emap f t)) (get_chunks chunksize (map ?g xs)))
              = Some (zip (map fst ?ch) rs @ ys', snd (apply_iter_items VALUES xs ?fn))"
          by (simp only: fin s1)
      next
        assume "snd (apply_iter_items VALUES xs ?fn) = None"
        with s1 ih2 have "ys' = fst (apply_iter_items VALUES ?rest ?fn)" by simp
        then show "zip (map fst ?ch) rs @ ys' = fst (apply_iter_items VALUES xs ?fn)"
          by (simp only: s2)
      qed
    qed
  qed
qed

lemma zip_results_singletons:
  "zip_results (map fst items) (map (\<lambda>t. Some (emap f t)) (map (\<lambda>a. [a]) (map (\<lambda>(k, v). [v]) items)))
     = Some (apply_iter_items VALUES items (Callable sc f))"
proof (induction items)
  case Nil
  then show ?case by simp
next
  case (Cons a items)
  obtain k v where a: "a = (k, v)" by (cases a)
  show ?case
  proof (cases "f [v]")
    case (Inl e)
    with a show ?thesis by (simp add: apply_item_def)
  next
    case (Inr r)
    with a Cons.IH show ?thesis
      by (simp add: apply_item_def split: prod.splits)
  qed
qed


lemma call_Callable: "call (Callable sc f) = f"
  by (rule ext) simp

lemma parallel_futures:
  assumes run: "use_threads \<or> sc = TopLevel"
    and mw: "max_workers = None \<or> (\<exists>w. max_workers = Some w \<and> 0 < w)"
    and cs: "use_threads \<or> 1 \<le> chunksize"
    and fin: "set completion =
                {0..<length (submitted (if use_threads then ThreadPoolExecutor else ProcessPoolExecutor)
                               chunksize func_items)}"
  shows "apply_iter_items_parallel VALUES func_items (Callable sc f) max_workers chunksize
           use_threads completion =
         zip_results (map fst func_items)
           (map (\<lambda>t. Some (emap f t))
              (submitted (if use_threads then ThreadPoolExecutor else ProcessPoolExecutor) chunksize
                 (map (\<lambda>(k, v). [v]) func_items)))"
proof -
  let ?ex = "if use_threads then ThreadPoolExecutor else ProcessPoolExecutor"
  let ?fn = "Callable sc f"
  let ?args = "map (\<lambda>(k, v). [v]) func_items"
  from mw have init: "executor_init ?ex max_workers = Inr ?ex"
    by (auto simp: executor_init_def)
  from run have job: "work ?ex ?fn = emap f"
    by (auto simp: work_def call_Callable)
  have "length (submitted ?ex chunksize ?args) = length (submitted ?ex chunksize func_items)"
    by (simp only: submitted_map length_map)
  with fin have "set completion = {0..<length (submitted ?ex chunksize ?args)}"
    by simp
  then have "run_tasks (emap f) (submitted ?ex chunksize ?args) completion
             = map (\<lambda>t. Some (emap f t)) (submitted ?ex chunksize ?args)"
    by (rule run_tasks_complete)
  with cs job have "executor_map ?ex ?fn ?args chunksize completion
             = Inr (map (\<lambda>t. Some (emap f t)) (submitted ?ex chunksize ?args))"
    by (auto simp: executor_map_def)
  with init show ?thesis
    by (simp add: apply_iter_items_parallel_def)
qed

lemma parallel_single:
  assumes run: "use_threads \<or> sc = TopLevel"
    and mw: "max_workers = None \<or> (\<exists>w. max_workers = Some w \<and> 0 < w)"
    and cs: "use_threads \<or> chunksize = 1"
    and fin: "set completion =
                {0..<length (submitted (if use_threads then ThreadPoolExecutor else ProcessPoolExecutor)
                               chunksize func_items)}"
  shows "apply_iter_items_parallel VALUES func_items (Callable sc f) max_workers chunksize
           use_threads completion = Some (apply_iter_items VALUES func_items (Callable sc f))"
proof -
  let ?ex = "if use_threads then ThreadPoolExecutor else ProcessPoolExecutor"
  let ?args = "map (\<lambda>(k, v). [v]) func_items"
  from cs have cs': "use_threads \<or> 1 \<le> chunksize" by auto
  from cs have sub: "submitted ?ex chunksize ?args = map (\<lambda>a. [a]) ?args"
    by (auto simp: get_chunks_one)
  show ?thesis
    unfolding parallel_futures [OF run mw cs' fin, of f] sub
    by (rule zip_results_singletons)
qed

lemma parallel_chunked:
  assumes run: "use_threads \<or> sc = TopLevel"
    and mw: "max_workers = None \<or> (\<exists>w. max_workers = Some w \<and> 0 < w)"
    and cs: "use_threads \<or> 1 \<le> chunksize"
    and fin: "set completion =
                {0..<length (submitted (if use_threads then ThreadPoolExecutor else ProcessPoolExecutor)
                               chunksize func_items)}"
  shows "\<exists>ys. apply_iter_items_parallel VALUES func_items (Callable sc f) max_workers chunksize
                 use_threads completion =
               Some (ys, snd (apply_iter_items VALUES func_items (Callable sc f)))
            \<and> (snd (apply_iter_items VALUES func_items (Callable sc f)) = None \<longrightarrow>
                 ys = fst (apply_iter_items VALUES func_items (Callable sc f)))"
proof (cases use_threads)
  case True
  let ?seq = "apply_iter_items VALUES func_items (Callable sc f)"
  from True have "use_threads \<or> chunksize = 1" by simp
  from parallel_single [OF run mw this fin, of f]
  have "apply_iter_items_parallel VALUES func_items (Callable sc f) max_workers chunksize
           use_threads completion = Some (fst ?seq, snd ?seq)"
    by (simp only: prod.collapse)
  then show ?thesis
    by (intro exI [of _ "fst ?seq"] conjI impI refl)
next
  case False
  let ?ex = "if use_threads then ThreadPoolExecutor else ProcessPoolExecutor"
  let ?args = "map (\<lambda>(k, v). [v]) func_items"
  from False cs have "0 < nat chunksize" by simp
  note chunked = zip_results_chunks [OF this, of func_items f sc]
  from False have sub: "submitted ?ex chunksize ?args = get_chunks (nat chunksize) ?args"
    by simp
  show ?thesis
    unfolding parallel_futures [OF run mw cs fin, of f] sub
    by (rule chunked)
qed

text \<open>
  Claim C6, as stated, fails: \<^verbatim>\<open>apply_pool\<close> runs the function in worker processes unless
  \<^verbatim>\<open>use_threads\<close> is set, and a worker process receives the function pickled. The function
  \<^verbatim>\<open>lambda a: a[0]\<close> gives the first element of every column under \<^verbatim>\<open>apply\<close>; under
  \<^verbatim>\<open>apply_pool\<close>, with its default arguments, the call ends in the pickling error.
\<close>

theorem parallel_apply_counterexample:
  "Delegate_apply (from_items Inr) VALUES example_items first_element =
     Inr [(OLabel (LStr ''p''), OElem (EInt 1)), (OLabel (LStr ''q''), OElem (EInt 4))]
   \<and> Delegate_apply_pool (from_items Inr) VALUES example_items first_element None 1 False [0, 1] =
       Some (Inl (PicklingError ''cannot pickle the function''))"
  by (simp add: Delegate_apply_def Delegate_apply_pool_def apply_iter_items_parallel_def
      executor_init_def executor_map_def run_tasks_def work_def get_chunks.simps from_items_def
      example_items_def first_element_def apply_item_def)

text \<open>
  Claim C6, amended: for every function \<open>f\<close> that the pool can run (any function when
  \<^verbatim>\<open>use_threads\<close> is set, a function defined at the top level of a module otherwise), with
  \<^verbatim>\<open>max_workers\<close> absent or positive and, for worker processes, \<^verbatim>\<open>chunksize\<close> at least one,
  and whatever the order in which the workers complete the tasks, \<^verbatim>\<open>apply_pool(f)\<close> on an
  iteration of values gives what \<^verbatim>\<open>apply(f)\<close> gives: the same keys in the same order with
  equal values, or the same error. The keys are those captured before dispatch, paired with
  the results in submission order. With one argument to a task (threads, or a \<^verbatim>\<open>chunksize\<close>
  of one) the two generators themselves yield the same pairs and end in the same way,
  whatever consumes them.
\<close>

theorem parallel_apply_equivalence:
  assumes run: "use_threads \<or> sc = TopLevel"
    and mw: "max_workers = None \<or> (\<exists>w. max_workers = Some w \<and> 0 < w)"
    and cs: "use_threads \<or> 1 \<le> chunksize"
    and fin: "set completion =
                {0..<length (submitted (if use_threads then ThreadPoolExecutor else ProcessPoolExecutor)
                               chunksize func_items)}"
  shows "Delegate_apply_pool (from_items build) VALUES func_items (Callable sc f) max_workers
           chunksize use_threads completion =
           Some (Delegate_apply (from_items build) VALUES func_items (Callable sc f))
         \<and> (use_threads \<or> chunksize = 1 \<longrightarrow>
              Delegate_apply_pool apply_constructor VALUES func_items (Callable sc f) max_workers
                chunksize use_threads completion =
              Some (Delegate_apply apply_constructor VALUES func_items (Callable sc f)))"
proof -
  let ?fn = "Callable sc f"
  let ?par = "apply_iter_items_parallel VALUES func_items ?fn max_workers chunksize use_threads
                completion"
  let ?seq = "apply_iter_items VALUES func_items ?fn"
  from parallel_chunked [OF run mw cs fin, of f]
  obtain ys where pq: "?par = Some (ys, snd ?seq) \<and> (snd ?seq = None \<longrightarrow> ys = fst ?seq)" ..
  note p = pq [THEN conjunct1] and q = pq [THEN conjunct2]
  have "from_items build (ys, snd ?seq) = from_items build (fst ?seq, snd ?seq)"
  proof (cases "snd ?seq")
    case None
    with q show ?thesis by simp
  next
    case (Some e)
    then show ?thesis by (simp add: from_items_def)
  qed
  then have "from_items build (ys, snd ?seq) = from_items build ?seq"
    by (simp only: prod.collapse)
  then have all: "Delegate_apply_pool (from_items build) VALUES func_items ?fn max_workers
           chunksize use_threads completion =
           Some (Delegate_apply (from_items build) VALUES func_items ?fn)"
    unfolding Delegate_apply_def Delegate_apply_pool_def p by simp
  have one: "use_threads \<or> chunksize = 1 \<longrightarrow>
              Delegate_apply_pool apply_constructor VALUES func_items ?fn max_workers
                chunksize use_threads completion =
              Some (Delegate_apply apply_constructor VALUES func_items ?fn)"
  proof (rule impI)
    assume t: "use_threads \<or> chunksize = 1"
    show "Delegate_apply_pool apply_constructor VALUES func_items ?fn max_workers
                chunksize use_threads completion =
              Some (Delegate_apply apply_constructor VALUES func_items ?fn)"
      unfolding Delegate_apply_def Delegate_apply_pool_def parallel_single [OF run mw t fin, of f]
      by simp
  qed
  from all one show ?thesis by (rule conjI)
qed

theorem parallel_apply_equivalence_witness:
  "set [0] = {0..<length (submitted ProcessPoolExecutor 2 example_items)}
   \<and> Delegate_apply (from_items Inr) VALUES example_items first_of =
       Inr [(OLabel (LStr ''p''), OElem (EInt 1)), (OLabel (LStr ''q''), OElem (EInt 4))]
   \<and> Delegate_apply_pool (from_items Inr) VALUES example_items first_of (Some 4) 2 False [0] =
       Some (Inr [(OLabel (LStr ''p''), OElem (EInt 1)), (OLabel (LStr ''q''), OElem (EInt 4))])"
proof -
  have c: "set [0] = {0..<length (submitted (if False then ThreadPoolExecutor else ProcessPoolExecutor)
                                    2 example_items)}"
    by (simp add: example_items_def get_chunks.simps)
  have s: "Delegate_apply (from_items Inr) VALUES example_items first_of =
       Inr [(OLabel (LStr ''p''), OElem (EInt 1)), (OLabel (LStr ''q''), OElem (EInt 4))]"
    by (simp add: Delegate_apply_def from_items_def example_items_def first_of_def apply_item_def)
  have r: "False \<or> TopLevel = TopLevel" by simp
  have m: "Some 4 = None \<or> (\<exists>w. Some (4::int) = Some w \<and> 0 < w)" by simp
  have k: "False \<or> 1 \<le> (2::int)" by simp
  show ?thesis
    using c s parallel_apply_equivalence [OF r m k c, of Inr]
    by (simp add: first_of_def)
qed

text \<open>
  An iteration of items is left out of the amended claim. There the two paths call the
  function differently, \<^verbatim>\<open>apply\<close> with the key and the value as two arguments (line 122),
  \<^verbatim>\<open>apply_pool\<close> with the pair as one argument (line 80): \<^verbatim>\<open>lambda k, v: v\<close> returns every
  value under \<^verbatim>\<open>apply\<close> and raises a \<^verbatim>\<open>TypeError\<close> under \<^verbatim>\<open>apply_pool\<close>, also with
  threads.
\<close>

lemma apply_pool_items_arity:
  "Delegate_apply (from_items Inr) ITEMS example_items take_value =
     Inr [(OLabel (LStr ''p''), OTuple [OElem (EInt 1), OElem (EInt 2)]),
          (OLabel (LStr ''q''), OTuple [OElem (EInt 4), OElem (EInt 5)])]
   \<and> Delegate_apply_pool (from_items Inr) ITEMS example_items take_value None 1 True [0, 1] =
       Some (Inl (TypeError ''missing 1 required positional argument''))"
  by (simp add: Delegate_apply_def Delegate_apply_pool_def apply_iter_items_parallel_def
      executor_init_def executor_map_def run_tasks_def work_def from_items_def
      example_items_def take_value_def apply_item_def)

section \<open>Dimensionality of an extraction\<close>

lemma axis_not_multi_is_int:
  "extract_axis_not_multi row_key column_key = (key_is_int row_key, key_is_int column_key)"
  by (cases row_key; cases column_key) (simp_all add: extract_axis_not_multi_def)

lemma loc_to_iloc_single:
  "loc_to_iloc ix k = Inr ik \<Longrightarrow> key_is_int ik = lkey_single k"
  by (cases k) (auto simp: ebind_eq_Inr)

lemma key_positions_int:
  "key_is_int k \<Longrightarrow> key_positions k n = Inr ps \<Longrightarrow> length ps = 1"
  by (cases k) (auto split: if_splits)

lemma tb_extract_Inr:
  assumes "tb_extract tb row_key column_key = Inr ct"
  shows "\<exists>rs cs. key_positions row_key (fst (tb_shape tb)) = Inr rs
           \<and> key_positions column_key (snd (tb_shape tb)) = Inr cs
           \<and> ct = (if key_is_int row_key \<and> key_is_int column_key
                    then Element (tb_columns tb ! hd cs ! hd rs)
                    else Blocks \<lparr>tb_blocks = map (\<lambda>c. Arr1 (map (\<lambda>r. tb_columns tb ! c ! r) rs)) cs,
                                 tb_shape = (length rs, length cs)\<rparr>)"
  using assms by (auto simp: tb_extract_def ebind_eq_Inr split: if_splits)

lemma extract_axis_multi:
  assumes "extract_axis ix key = Inr x" and "\<not> key_is_int key"
  shows "\<exists>ix' ps. x = XIndex ix' \<and> key_positions key (length (ix_values ix)) = Inr ps
            \<and> ix_values ix' = map (\<lambda>p. ix_values ix ! p) ps"
proof (cases "key = KNone \<or> (is_slice key \<and> key = NULL_SLICE)")
  case True
  then have "key_positions key (length (ix_values ix)) = Inr [0..<length (ix_values ix)]"
    by (auto simp: NULL_SLICE_def)
  moreover have "map (\<lambda>p. ix_values ix ! p) [0..<length (ix_values ix)] = ix_values ix"
    by (rule map_nth)
  moreover from True assms(1) have "x = XIndex ix"
    by (auto simp: extract_axis_def)
  ultimately show ?thesis by simp
next
  case False
  with assms show ?thesis
    by (cases key) (auto simp: extract_axis_def ebind_eq_Inr Index_init_def split: if_splits)
qed

lemma extract_axis_int:
  assumes "extract_axis ix key = Inr x" and "key_is_int key"
  shows "\<exists>l. x = XLabel l"
  using assms by (cases key) (auto simp: extract_axis_def NULL_SLICE_def split: if_splits)

lemma Series_over_Inr:
  "Series_over vs immutable axis name = Inr s \<Longrightarrow>
     \<exists>ix. axis = XIndex ix \<and> ix_values (s_index s) = ix_values ix"
  by (cases axis)
     (auto simp: Series_over_def Series_init_def immutable_index_filter_def split: if_splits)

lemma Frame_extract_kind:
  assumes "Frame_extract F row_key column_key = Inr res"
  shows "(key_is_int row_key \<and> key_is_int column_key \<longrightarrow> (\<exists>e. res = RElement e))
       \<and> (key_is_int row_key \<and> \<not> key_is_int column_key \<longrightarrow>
            (\<exists>s ix. res = RSeries s \<and> extract_axis (f_columns F) column_key = Inr (XIndex ix)
                     \<and> ix_values (s_index s) = ix_values ix))
       \<and> (\<not> key_is_int row_key \<and> key_is_int column_key \<longrightarrow>
            (\<exists>s ix. res = RSeries s \<and> extract_axis (f_index F) row_key = Inr (XIndex ix)
                     \<and> ix_values (s_index s) = ix_values ix))
       \<and> (\<not> key_is_int row_key \<and> \<not> key_is_int column_key \<longrightarrow> (\<exists>f. res = RFrame f))"
proof -
  from assms obtain ct where cut: "tb_extract (f_blocks F) row_key column_key = Inr ct"
    by (auto simp: Frame_extract_def ebind_eq_Inr)
  from tb_extract_Inr [OF cut] obtain rs cs where
    rs: "key_positions row_key (fst (tb_shape (f_blocks F))) = Inr rs"
    and cs: "key_positions column_key (snd (tb_shape (f_blocks F))) = Inr cs"
    and c: "ct = (if key_is_int row_key \<and> key_is_int column_key
                    then Element (tb_columns (f_blocks F) ! hd cs ! hd rs)
                    else Blocks \<lparr>tb_blocks = map (\<lambda>c. Arr1 (map (\<lambda>r. tb_columns (f_blocks F) ! c ! r) rs)) cs,
                                 tb_shape = (length rs, length cs)\<rparr>)"
    by blast
  show ?thesis
  proof (cases "key_is_int row_key \<and> key_is_int column_key")
    case True
    with assms cut c show ?thesis by (auto simp: Frame_extract_def)
  next
    case False
    define blocks where "blocks = \<lparr>tb_blocks = map (\<lambda>c. Arr1 (map (\<lambda>r. tb_columns (f_blocks F) ! c ! r) rs)) cs,
                                 tb_shape = (length rs, length cs)\<rparr>"
    from False c have cb: "ct = Blocks blocks" by (simp add: blocks_def)
    have sh: "tb_shape blocks = (length rs, length cs)" by (simp add: blocks_def)
    from assms cut cb obtain index columns where
      ix: "extract_axis (f_index F) row_key = Inr index"
      and cx: "extract_axis (f_columns F) column_key = Inr columns"
      by (auto simp: Frame_extract_def ebind_eq_Inr)
    show ?thesis
    proof (cases "key_is_int row_key")
      case True
      with False have nc: "\<not> key_is_int column_key" by simp
      from True rs have "length rs = 1" by (rule key_positions_int)
      with sh have "fst (tb_shape blocks) = 1" by simp
      with assms cut cb ix cx True nc obtain s where
        "Series_over (map (\<lambda>c. c ! 0) (tb_columns blocks)) True columns (extracted_name index) = Inr s"
        and "res = RSeries s"
        by (auto simp: Frame_extract_def axis_not_multi_is_int Let_def ebind_eq_Inr split: if_splits)
      with Series_over_Inr cx True nc show ?thesis by blast
    next
      case nr: False
      show ?thesis
      proof (cases "key_is_int column_key")
        case True
        from True cs have "length cs = 1" by (rule key_positions_int)
        with sh have s1: "snd (tb_shape blocks) = 1" by simp
        from extract_axis_int [OF cx True] obtain l where l: "columns = XLabel l" by blast
        from assms cut cb ix cx True nr s1 l obtain s vs where
          "Series_over vs False index (extracted_name columns) = Inr s"
          and "res = RSeries s"
          by (auto simp: Frame_extract_def axis_not_multi_is_int Let_def ebind_eq_Inr
              split: if_splits extracted.splits)
        with Series_over_Inr ix True nr show ?thesis by blast
      next
        case False
        from extract_axis_multi [OF ix nr] extract_axis_multi [OF cx False]
        obtain i c where "index = XIndex i" "columns = XIndex c" by blast
        with assms cut cb ix cx nr False show ?thesis
          by (auto simp: Frame_extract_def axis_not_multi_is_int Let_def ebind_eq_Inr
              split: if_splits)
      qed
    qed
  qed
qed

lemma extract_axis_ok:
  assumes "key_positions k (length (ix_values ix)) = Inr ps"
    and "distinct (map (\<lambda>p. ix_values ix ! p) ps)"
  shows "(key_is_int k \<longrightarrow> (\<exists>l. extract_axis ix k = Inr (XLabel l)))
       \<and> (\<not> key_is_int k \<longrightarrow>
            (\<exists>ix'. extract_axis ix k = Inr (XIndex ix') \<and> length (ix_values ix') = length ps
                   \<and> (k = KNone \<or> (is_slice k \<and> k = NULL_SLICE) \<longrightarrow> ix' = ix)))"
proof (cases "k = KNone \<or> (is_slice k \<and> k = NULL_SLICE)")
  case True
  with assms(1) show ?thesis by (auto simp: extract_axis_def NULL_SLICE_def)
next
  case False
  with assms show ?thesis
    by (cases k) (auto simp: extract_axis_def Index_init_def split: if_splits)
qed

lemma cut_columns [simp]:
  "tb_columns \<lparr>tb_blocks = map (\<lambda>c. Arr1 (g c)) cs, tb_shape = sh\<rparr> = map g cs"
  by (simp add: tb_columns_def comp_def concat_map_singleton)

lemma Series_init_ok:
  "length vs = length (ix_values ix) \<Longrightarrow> \<exists>s. Series_init vs ix name = Inr s"
  by (simp add: Series_init_def)

lemma Frame_extract_succeeds:
  assumes inv: "frame_inv F"
    and rs: "key_positions row_key (length (ix_values (f_index F))) = Inr rs"
    and cs: "key_positions column_key (length (ix_values (f_columns F))) = Inr cs"
    and dr: "distinct (map (\<lambda>p. ix_values (f_index F) ! p) rs)"
    and dc: "distinct (map (\<lambda>p. ix_values (f_columns F) ! p) cs)"
  shows "\<exists>res. Frame_extract F row_key column_key = Inr res"
proof -
  let ?tb = "f_blocks F"
  from inv have li: "length (ix_values (f_index F)) = fst (tb_shape ?tb)"
    and lc: "length (ix_values (f_columns F)) = snd (tb_shape ?tb)"
    and dcs: "distinct (ix_values (f_columns F))"
    and sc: "ix_STATIC (f_columns F) = COLUMN_CONSTRUCTOR_STATIC (f_class F)"
    by (simp_all add: frame_inv_def)
  show ?thesis
  proof (cases "key_is_int row_key \<and> key_is_int column_key")
    case True
    with rs cs li lc show ?thesis
      by (simp add: Frame_extract_def tb_extract_def)
  next
    case False
    define blocks where
      "blocks = \<lparr>tb_blocks = map (\<lambda>c. Arr1 (map (\<lambda>r. tb_columns ?tb ! c ! r) rs)) cs,
                 tb_shape = (length rs, length cs)\<rparr>"
    have cut: "tb_extract ?tb row_key column_key = Inr (Blocks blocks)"
      using False rs cs li lc by (simp add: tb_extract_def blocks_def)
    have sh: "tb_shape blocks = (length rs, length cs)" by (simp add: blocks_def)
    have cols: "tb_columns blocks = map (\<lambda>c. map (\<lambda>r. tb_columns ?tb ! c ! r) rs) cs"
      by (simp add: blocks_def)
    note xr = extract_axis_ok [OF rs dr]
    note xc = extract_axis_ok [OF cs dc]
    show ?thesis
    proof (cases "key_is_int row_key")
      case True
      with False have nc: "\<not> key_is_int column_key" by simp
      from True xr obtain l where il: "extract_axis (f_index F) row_key = Inr (XLabel l)" by blast
      from nc xc obtain c' where cx: "extract_axis (f_columns F) column_key = Inr (XIndex c')"
        and lc': "length (ix_values c') = length cs" by blast
      from True rs have one: "length rs = 1" by (rule key_positions_int)
      have "length (map (\<lambda>c. c ! 0) (tb_columns blocks)) = length (ix_values (immutable_index_filter c'))"
        using lc' by (simp add: cols immutable_index_filter_def)
      then obtain s where
        "Series_init (map (\<lambda>c. c ! 0) (tb_columns blocks)) (immutable_index_filter c') (Some l) = Inr s"
        using Series_init_ok by blast
      with cut il cx True nc one sh show ?thesis
        by (simp add: Frame_extract_def axis_not_multi_is_int Series_over_def Let_def)
    next
      case nr: False
      from nr xr obtain i' where ix: "extract_axis (f_index F) row_key = Inr (XIndex i')"
        and li': "length (ix_values i') = length rs" by blast
      show ?thesis
      proof (cases "key_is_int column_key")
        case True
        from True xc obtain l where cl: "extract_axis (f_columns F) column_key = Inr (XLabel l)"
          by blast
        from True cs have one: "length cs = 1" by (rule key_positions_int)
        then obtain c0 where c0: "cs = [c0]" by (cases cs) auto
        have s1: "\<exists>s. Series_init (map (\<lambda>c. c ! 0) (tb_columns blocks)) i' (Some l) = Inr s"
          if "length rs = 1"
          using that li' by (intro Series_init_ok) (simp add: cols c0)
        have s2: "\<exists>s. Series_init (hd (array_columns (hd (tb_blocks blocks)))) i' (Some l) = Inr s"
          using li' by (intro Series_init_ok) (simp add: blocks_def c0)
        show ?thesis
        proof (cases "length rs = 1")
          case True
          with cut ix cl \<open>key_is_int column_key\<close> nr one sh s1 show ?thesis
            by (auto simp: Frame_extract_def axis_not_multi_is_int Series_over_def Let_def)
        next
          case False
          with cut ix cl \<open>key_is_int column_key\<close> nr one sh s2 show ?thesis
            by (auto simp: Frame_extract_def axis_not_multi_is_int Series_over_def Let_def)
        qed
      next
        case False
        from False xc obtain c' where cx: "extract_axis (f_columns F) column_key = Inr (XIndex c')"
          and lc': "length (ix_values c') = length cs"
          and same: "column_key = KNone \<or> (is_slice column_key \<and> column_key = NULL_SLICE) \<longrightarrow> c' = f_columns F"
          by blast
        let ?oc = "if column_key = KNone \<or> (is_slice column_key \<and> column_key = NULL_SLICE)
                   then COLUMN_CONSTRUCTOR_STATIC (f_class F) else True"
        have ic: "init_axis (COLUMN_CONSTRUCTOR_STATIC (f_class F)) ?oc (InitIndex c')
                    (Some (snd (tb_shape blocks))) = Inr c'"
        proof (cases ?oc)
          case True
          then show ?thesis by (simp add: init_axis_def)
        next
          case f: False
          then have k: "column_key = KNone \<or> (is_slice column_key \<and> column_key = NULL_SLICE)"
            by (auto split: if_splits)
          with same have "c' = f_columns F" by simp
          with dcs sc lc' sh show ?thesis by (simp add: init_axis_same)
        qed
        have ii: "init_axis True True (InitIndex i') (Some (fst (tb_shape blocks))) = Inr i'"
          by (simp add: init_axis_def)
        have "Frame_init (f_class F) (DataTypeBlocks blocks) (InitIndex i') (InitIndex c')
                (f_name F) True True ?oc
              = Inr \<lparr>f_blocks = blocks, f_columns = c', f_index = i', f_name = f_name F,
                     f_class = f_class F\<rparr>"
          using li' lc' sh by (intro Frame_init_own_data ic ii) simp_all
        with Frame_extract_both_multi [OF cut ix cx] nr False show ?thesis
          by (simp add: axis_not_multi_is_int)
      qed
    qed
  qed
qed

lemma loc_extract_succeeds:
  assumes "frame_inv F"
    and "selected_labels (f_index F) rk = Inr rl" and "distinct rl"
    and "selected_labels (f_columns F) ck = Inr cl" and "distinct cl"
  shows "\<exists>res. Frame_extract_loc F (CTuple [rk, ck]) = Inr res"
proof -
  from assms(2,3) obtain r rs where r: "loc_to_iloc (f_index F) rk = Inr r"
    and rs: "key_positions r (length (ix_values (f_index F))) = Inr rs"
    and dr: "distinct (map (\<lambda>p. ix_values (f_index F) ! p) rs)"
    by (auto simp: selected_labels_def ebind_eq_Inr)
  from assms(4,5) obtain c cs where c: "loc_to_iloc (f_columns F) ck = Inr c"
    and cs: "key_positions c (length (ix_values (f_columns F))) = Inr cs"
    and dc: "distinct (map (\<lambda>p. ix_values (f_columns F) ! p) cs)"
    by (auto simp: selected_labels_def ebind_eq_Inr)
  from Frame_extract_succeeds [OF assms(1) rs cs dr dc] r c show ?thesis
    by (simp add: Frame_extract_loc_def compound_loc_to_iloc_def)
qed

text \<open>
  Claim C2: whenever a loc-extraction returns, its result collapses by the classification
  of the two keys: both single-selecting, an element; the row key single-selecting and
  the column key multiple-selecting, a Series indexed by the selected columns; the
  column key single-selecting and the row key multiple-selecting, a Series indexed by the
  selected rows; both multiple-selecting, a Frame. With a row key alone the column key
  is \<^verbatim>\<open>None\<close>: a single label gives a Series indexed by all columns, any other key a Frame.
  And the extraction does return, on a Frame that satisfies the Frame invariant, whenever
  both keys resolve and neither selects a label twice.
\<close>

theorem loc_dimensionality:
  "(Frame_extract_loc F (CTuple [rk, ck]) = Inr res \<longrightarrow>
      (lkey_single rk \<and> lkey_single ck \<longrightarrow> (\<exists>e. res = RElement e))
    \<and> (lkey_single rk \<and> \<not> lkey_single ck \<longrightarrow>
         (\<exists>s. res = RSeries s \<and> selected_labels (f_columns F) ck = Inr (ix_values (s_index s))))
    \<and> (\<not> lkey_single rk \<and> lkey_single ck \<longrightarrow>
         (\<exists>s. res = RSeries s \<and> selected_labels (f_index F) rk = Inr (ix_values (s_index s))))
    \<and> (\<not> lkey_single rk \<and> \<not> lkey_single ck \<longrightarrow> (\<exists>f. res = RFrame f)))
   \<and> (Frame_extract_loc F (CKey rk) = Inr res' \<longrightarrow>
        (lkey_single rk \<longrightarrow>
           (\<exists>s. res' = RSeries s \<and> ix_values (s_index s) = ix_values (f_columns F)))
      \<and> (\<not> lkey_single rk \<longrightarrow> (\<exists>f. res' = RFrame f)))
   \<and> (frame_inv F
        \<and> selected_labels (f_index F) rk = Inr rl \<and> distinct rl
        \<and> selected_labels (f_columns F) ck = Inr cl \<and> distinct cl \<longrightarrow>
        (\<exists>r. Frame_extract_loc F (CTuple [rk, ck]) = Inr r))"
proof -
  have pair: "(lkey_single rk \<and> lkey_single ck \<longrightarrow> (\<exists>e. res = RElement e))
    \<and> (lkey_single rk \<and> \<not> lkey_single ck \<longrightarrow>
         (\<exists>s. res = RSeries s \<and> selected_labels (f_columns F) ck = Inr (ix_values (s_index s))))
    \<and> (\<not> lkey_single rk \<and> lkey_single ck \<longrightarrow>
         (\<exists>s. res = RSeries s \<and> selected_labels (f_index F) rk = Inr (ix_values (s_index s))))
    \<and> (\<not> lkey_single rk \<and> \<not> lkey_single ck \<longrightarrow> (\<exists>f. res = RFrame f))"
    if a: "Frame_extract_loc F (CTuple [rk, ck]) = Inr res"
  proof -
    from a obtain r c where c: "loc_to_iloc (f_columns F) ck = Inr c"
      and r: "loc_to_iloc (f_index F) rk = Inr r"
      and e: "Frame_extract F r c = Inr res"
      by (auto simp: Frame_extract_loc_def compound_loc_to_iloc_def ebind_eq_Inr)
    note k = Frame_extract_kind [OF e]
    have sr: "key_is_int r = lkey_single rk" using r by (rule loc_to_iloc_single)
    have sc: "key_is_int c = lkey_single ck" using c by (rule loc_to_iloc_single)
    have cols: "selected_labels (f_columns F) ck = Inr (ix_values ix)"
      if "extract_axis (f_columns F) c = Inr (XIndex ix)" and "\<not> key_is_int c" for ix
      using extract_axis_multi [OF that] c by (auto simp: selected_labels_def)
    have rows: "selected_labels (f_index F) rk = Inr (ix_values ix)"
      if "extract_axis (f_index F) r = Inr (XIndex ix)" and "\<not> key_is_int r" for ix
      using extract_axis_multi [OF that] r by (auto simp: selected_labels_def)
    from k sr sc cols rows show ?thesis by metis
  qed
  have single: "(lkey_single rk \<longrightarrow>
           (\<exists>s. res' = RSeries s \<and> ix_values (s_index s) = ix_values (f_columns F)))
      \<and> (\<not> lkey_single rk \<longrightarrow> (\<exists>f. res' = RFrame f))"
    if a: "Frame_extract_loc F (CKey rk) = Inr res'"
  proof -
    from a obtain r where r: "loc_to_iloc (f_index F) rk = Inr r"
      and e: "Frame_extract F r KNone = Inr res'"
      by (auto simp: Frame_extract_loc_def compound_loc_to_iloc_def ebind_eq_Inr)
    note k = Frame_extract_kind [OF e]
    have sr: "key_is_int r = lkey_single rk" using r by (rule loc_to_iloc_single)
    have "extract_axis (f_columns F) KNone = Inr (XIndex (f_columns F))"
      by (simp add: extract_axis_def)
    with k sr show ?thesis by auto
  qed
  from pair single loc_extract_succeeds [of F rk rl ck cl] show ?thesis by blast
qed

theorem loc_dimensionality_witness:
  "frame_inv example_frame
   \<and> Frame_extract_loc example_frame (CTuple [LKLabel (LStr ''x''), LKLabel (LStr ''q'')]) =
     Inr (RElement (EInt 5))
   \<and> Frame_extract_loc example_frame (CTuple [LKLabel (LStr ''x''), LKSlice None None]) =
     Inr (RSeries \<lparr>s_values = [EInt 2, EInt 5, EStr ''b''],
                   s_index = \<lparr>ix_values = [LStr ''p'', LStr ''q'', LStr ''r''], ix_STATIC = True\<rparr>,
                   s_name = Some (LStr ''x'')\<rparr>)
   \<and> selected_labels (f_columns example_frame) (LKSlice None None) =
     Inr [LStr ''p'', LStr ''q'', LStr ''r'']
   \<and> Frame_extract_loc example_frame (CTuple [LKSlice None None, LKLabel (LStr ''q'')]) =
     Inr (RSeries \<lparr>s_values = [EInt 4, EInt 5, EInt 6],
                   s_index = \<lparr>ix_values = [LStr ''w'', LStr ''x'', LStr ''y''], ix_STATIC = True\<rparr>,
                   s_name = Some (LStr ''q'')\<rparr>)
   \<and> selected_labels (f_index example_frame) (LKSlice None None) =
     Inr [LStr ''w'', LStr ''x'', LStr ''y'']
   \<and> Frame_extract_loc example_frame (CTuple [LKSlice None None, LKSlice None None]) =
     Inr (RFrame (example_frame\<lparr>f_blocks := \<lparr>tb_blocks = [Arr1 [EInt 1, EInt 2, EInt 3],
              Arr1 [EInt 4, EInt 5, EInt 6], Arr1 [EStr ''a'', EStr ''b'', EStr ''c'']],
              tb_shape = (3, 3)\<rparr>\<rparr>))"
proof -
  note defs = Frame_extract_loc_def compound_loc_to_iloc_def label_to_pos_def
    Frame_extract_def tb_extract_def extract_axis_def extract_axis_not_multi_def
    Series_over_def Series_init_def immutable_index_filter_def NULL_SLICE_def
    Frame_init_def init_blocks_def init_axis_def example_frame_def tb_columns_def Let_def
    selected_labels_def upt_rec
  have e1: "Frame_extract_loc example_frame (CTuple [LKLabel (LStr ''x''), LKLabel (LStr ''q'')]) =
     Inr (RElement (EInt 5))"
    by (simp add: defs)
  have e2: "Frame_extract_loc example_frame (CTuple [LKLabel (LStr ''x''), LKSlice None None]) =
     Inr (RSeries \<lparr>s_values = [EInt 2, EInt 5, EStr ''b''],
                   s_index = \<lparr>ix_values = [LStr ''p'', LStr ''q'', LStr ''r''], ix_STATIC = True\<rparr>,
                   s_name = Some (LStr ''x'')\<rparr>)"
    by (simp add: defs)
  have e3: "Frame_extract_loc example_frame (CTuple [LKSlice None None, LKLabel (LStr ''q'')]) =
     Inr (RSeries \<lparr>s_values = [EInt 4, EInt 5, EInt 6],
                   s_index = \<lparr>ix_values = [LStr ''w'', LStr ''x'', LStr ''y''], ix_STATIC = True\<rparr>,
                   s_name = Some (LStr ''q'')\<rparr>)"
    by (simp add: defs)
  have e4: "Frame_extract_loc example_frame (CTuple [LKSlice None None, LKSlice None None]) =
     Inr (RFrame (example_frame\<lparr>f_blocks := \<lparr>tb_blocks = [Arr1 [EInt 1, EInt 2, EInt 3],
              Arr1 [EInt 4, EInt 5, EInt 6], Arr1 [EStr ''a'', EStr ''b'', EStr ''c'']],
              tb_shape = (3, 3)\<rparr>\<rparr>))"
    by (simp add: defs)
  have i: "frame_inv example_frame"
    by (simp add: frame_inv_def example_frame_def tb_wf_def)
  show ?thesis
    using i e1 e2 e3 e4
      loc_dimensionality [of example_frame "LKLabel (LStr ''x'')" "LKSlice None None"
        "RSeries \<lparr>s_values = [EInt 2, EInt 5, EStr ''b''],
                   s_index = \<lparr>ix_values = [LStr ''p'', LStr ''q'', LStr ''r''], ix_STATIC = True\<rparr>,
                   s_name = Some (LStr ''x'')\<rparr>"]
      loc_dimensionality [of example_frame "LKSlice None None" "LKLabel (LStr ''q'')"
        "RSeries \<lparr>s_values = [EInt 4, EInt 5, EInt 6],
                   s_index = \<lparr>ix_values = [LStr ''w'', LStr ''x'', LStr ''y''], ix_STATIC = True\<rparr>,
                   s_name = Some (LStr ''q'')\<rparr>"]
    by simp
qed

section \<open>Concatenation along the rows\<close>









lemma position_of_less: "position_of xs l = Some p \<Longrightarrow> p < length xs"
  by (induction xs arbitrary: p) (auto split: if_splits)


lemma distinct_range_labels: "distinct (map (\<lambda>i. LInt (int i)) [0..<n])"
  by (simp add: distinct_map inj_on_def)





lemma column_2d_filter_shape [simp]:
  "shape_filter (column_2d_filter b) = shape_filter b"
  "is_2d (column_2d_filter b)"
  by (cases b; simp)+













section \<open>Atomicity of the single-Frame-producing operations\<close>










section \<open>Assignment realigns by label\<close>

lemma key_positions_lt:
  "key_positions k n = Inr ps \<Longrightarrow> p \<in> set ps \<Longrightarrow> p < n"
  by (cases k) (auto simp: list_all_iff split: if_splits)

lemma Index_extract_iloc_multi:
  assumes "Index_extract_iloc ix key = Inr x" and "\<not> key_is_int key"
  shows "\<exists>ix' ps. x = XIndex ix' \<and> key_positions key (length (ix_values ix)) = Inr ps
            \<and> ix_values ix' = map (\<lambda>p. ix_values ix ! p) ps \<and> distinct ps"
proof (cases "key = KNone")
  case True
  have "map (\<lambda>p. ix_values ix ! p) [0..<length (ix_values ix)] = ix_values ix"
    by (rule map_nth)
  with True assms(1) show ?thesis by auto
next
  case False
  with assms show ?thesis
    by (cases key)
       (auto simp: ebind_eq_Inr Index_init_def distinct_map split: if_splits)
qed

lemma target_index_multi:
  assumes "target_index ix key = Inr t" and "\<not> key_is_int key"
  shows "\<exists>ps. key_positions key (length (ix_values ix)) = Inr ps
            \<and> ix_values t = map (\<lambda>p. ix_values ix ! p) ps \<and> distinct ps"
proof -
  from assms(1) obtain x where x: "Index_extract_iloc ix key = Inr x"
    and t: "(case x of XIndex i \<Rightarrow> Inr i | XLabel l \<Rightarrow> Inl (TypeError ''a label is not an index'')) = Inr t"
    by (auto simp: target_index_def ebind_eq_Inr)
  from Index_extract_iloc_multi [OF x assms(2)] t show ?thesis by auto
qed

lemma Series_at_reindex_value:
  "reindex_value (s_values s) fill_value (position_of (ix_values (s_index s)) l) = Series_at s fill_value l"
  by (cases "position_of (ix_values (s_index s)) l") (simp_all add: Series_at_def)

lemma Series_reindex_values:
  assumes "Series_reindex s t fill_value = Inr v"
  shows "s_values v = map (Series_at s fill_value) (ix_values t)"
  using assms
  by (auto simp: Series_reindex_def ebind_eq_Inr Index_init_def Let_def from_correspondence_def
      Series_at_reindex_value split: if_splits)

lemma Frame_init_blocks:
  "Frame_init cls (DataTypeBlocks tb) index columns name True own_index own_columns = Inr f
     \<Longrightarrow> f_blocks f = tb"
  by (auto simp: Frame_init_def init_blocks_def ebind_eq_Inr Let_def split: if_splits)

lemma Frame_at_resize_cell:
  "resize_cell (tb_columns (f_blocks v)) fill_value
     (position_of (ix_values (f_columns v)) cl) (position_of (ix_values (f_index v)) rl)
   = Frame_at v fill_value rl cl"
  by (cases "position_of (ix_values (f_columns v)) cl"; cases "position_of (ix_values (f_index v)) rl")
     (simp_all add: Frame_at_def Frame_cell_def)

lemma Frame_reindex_values:
  assumes "Frame_reindex v (InitIndex tr) (InitIndex tc) fill_value = Inr v'"
  shows "Frame_values v' =
           Arr2 (length (ix_values tr))
             (map (\<lambda>cl. map (\<lambda>rl. Frame_at v fill_value rl cl) (ix_values tr)) (ix_values tc))"
proof -
  from assms obtain i ric c cic bs tb where
    r: "reindex_rows v (InitIndex tr) = Inr (i, ric)"
    and c: "reindex_columns v (InitIndex tc) = Inr (c, cic)"
    and rs: "resize_blocks (f_blocks v) ric cic fill_value = Inr bs"
    and fb: "from_blocks bs = Inr tb"
    and init: "Frame_init (f_class v) (DataTypeBlocks tb) (InitIndex i) (InitIndex c)
                 (f_name v) True False False = Inr v'"
    by (auto simp: Frame_reindex_def ebind_eq_Inr split: if_splits)
  from r have ric: "ric = Some (map (position_of (ix_values (f_index v))) (ix_values tr))"
    by (auto simp: reindex_rows_def ebind_eq_Inr Index_init_def from_correspondence_def
        split: if_splits)
  from c have cic: "cic = Some (map (position_of (ix_values (f_columns v))) (ix_values tc))"
    by (auto simp: reindex_columns_def ebind_eq_Inr Index_init_def from_correspondence_def
        split: if_splits)
  from rs ric cic have bs: "bs = [Arr2 (length (ix_values tr))
        (map (\<lambda>cl. map (\<lambda>rl. Frame_at v fill_value rl cl) (ix_values tr)) (ix_values tc))]"
    by (auto simp: resize_blocks_def Let_def Frame_at_resize_cell comp_def split: if_splits)
  from fb bs have "tb_values tb = Arr2 (length (ix_values tr))
        (map (\<lambda>cl. map (\<lambda>rl. Frame_at v fill_value rl cl) (ix_values tr)) (ix_values tc))"
    by (auto simp: from_blocks_def tb_values_def tb_columns_def)
  with Frame_init_blocks [OF init] show ?thesis
    by (simp add: Frame_values_def)
qed

lemma extract_iloc_assign_cell:
  assumes a: "extract_iloc_assign tb (CTuple [row_key, column_key]) v = Inr blocks"
    and rs: "key_positions row_key (fst (tb_shape tb)) = Inr rs"
    and cs: "key_positions column_key (snd (tb_shape tb)) = Inr cs"
    and dr: "distinct rs" and dc: "distinct cs"
    and i: "i < length rs" and j: "j < length cs"
  shows "tb_columns blocks ! (cs ! j) ! (rs ! i)
         = value_cell v (key_is_int column_key \<and> \<not> key_is_int row_key) i j"
proof -
  let ?along = "key_is_int column_key \<and> \<not> key_is_int row_key"
  from a rs cs have b: "blocks = \<lparr>tb_blocks =
                     map (\<lambda>c. Arr1 (map (assigned_cell (tb_columns tb) rs cs v ?along c)
                                       [0..<fst (tb_shape tb)]))
                         [0..<snd (tb_shape tb)],
                  tb_shape = tb_shape tb\<rparr>"
    by (auto simp: extract_iloc_assign_def unpack_iloc_key_def Let_def split: if_splits)
  have cols: "tb_columns blocks =
                map (\<lambda>c. map (assigned_cell (tb_columns tb) rs cs v ?along c) [0..<fst (tb_shape tb)])
                    [0..<snd (tb_shape tb)]"
    unfolding b tb_columns_def by (simp add: comp_def concat_map_singleton)
  from key_positions_lt [OF rs] i have ri: "rs ! i < fst (tb_shape tb)" by simp
  from key_positions_lt [OF cs] j have cj: "cs ! j < snd (tb_shape tb)" by simp
  have "tb_columns blocks ! (cs ! j) ! (rs ! i)
        = assigned_cell (tb_columns tb) rs cs v ?along (cs ! j) (rs ! i)"
    using ri cj by (simp add: cols)
  also have "\<dots> = value_cell v ?along i j"
    using position_of_nth [OF dr i] position_of_nth [OF dc j]
    by (simp add: assigned_cell_def)
  finally show ?thesis .
qed

lemma extract_iloc_assign_positions:
  assumes "extract_iloc_assign tb (CTuple [row_key, column_key]) v = Inr blocks"
  shows "\<exists>rs cs. key_positions row_key (fst (tb_shape tb)) = Inr rs
           \<and> key_positions column_key (snd (tb_shape tb)) = Inr cs"
  using assms by (auto simp: extract_iloc_assign_def unpack_iloc_key_def ebind_eq_Inr)

lemma assign_series_row:
  assumes inv: "frame_inv F"
    and call: "FrameAssign_call F (CTuple [KInt r, column_key]) (ValSeries s) fill_value = Inr F'"
    and nc: "\<not> key_is_int column_key"
    and cs: "key_positions column_key (snd (tb_shape (f_blocks F))) = Inr cs"
    and j: "j < length cs"
  shows "Frame_cell F' r (cs ! j) = Series_at s fill_value (ix_values (f_columns F) ! (cs ! j))"
proof -
  from call obtain lv blocks where
    ro: "reindex_other_like_iloc F (LSeries s) (CTuple [KInt r, column_key]) fill_value = Inr lv"
    and as: "extract_iloc_assign (f_blocks F) (CTuple [KInt r, column_key])
               (RawArray (labelled_values lv)) = Inr blocks"
    and init: "Frame_init (f_class F) (DataTypeBlocks blocks) (InitIndex (f_index F))
                 (InitIndex (f_columns F)) (f_name F) True False False = Inr F'"
    by (auto simp: FrameAssign_call_def ebind_eq_Inr)
  from ro nc obtain t sv where t: "target_index (f_columns F) column_key = Inr t"
    and sv: "Series_reindex s t fill_value = Inr sv" and lv: "lv = LSeries sv"
    by (auto simp: reindex_other_like_iloc_def unpack_iloc_key_def axis_not_multi_is_int
        Let_def ebind_eq_Inr)
  from inv have lc: "length (ix_values (f_columns F)) = snd (tb_shape (f_blocks F))"
    by (simp add: frame_inv_def)
  from target_index_multi [OF t nc] cs lc
  have lt: "ix_values t = map (\<lambda>p. ix_values (f_columns F) ! p) cs" and dc: "distinct cs"
    by auto
  from extract_iloc_assign_positions [OF as]
  have rs: "key_positions (KInt r) (fst (tb_shape (f_blocks F))) = Inr [r]"
    by (auto split: if_splits)
  have "tb_columns blocks ! (cs ! j) ! ([r] ! 0)
        = value_cell (RawArray (labelled_values lv)) (key_is_int column_key \<and> \<not> key_is_int (KInt r)) 0 j"
    using j by (intro extract_iloc_assign_cell [OF as rs cs _ dc]) simp_all
  then have "tb_columns blocks ! (cs ! j) ! r = s_values sv ! j"
    using nc lv by simp
  also have "\<dots> = Series_at s fill_value (ix_values (f_columns F) ! (cs ! j))"
    using Series_reindex_values [OF sv] lt j by simp
  finally show ?thesis
    using Frame_init_blocks [OF init] by (simp add: Frame_cell_def)
qed

lemma assign_series_column:
  assumes inv: "frame_inv F"
    and call: "FrameAssign_call F (CTuple [row_key, KInt c]) (ValSeries s) fill_value = Inr F'"
    and nr: "\<not> key_is_int row_key"
    and rs: "key_positions row_key (fst (tb_shape (f_blocks F))) = Inr rs"
    and i: "i < length rs"
  shows "Frame_cell F' (rs ! i) c = Series_at s fill_value (ix_values (f_index F) ! (rs ! i))"
proof -
  from call obtain lv blocks where
    ro: "reindex_other_like_iloc F (LSeries s) (CTuple [row_key, KInt c]) fill_value = Inr lv"
    and as: "extract_iloc_assign (f_blocks F) (CTuple [row_key, KInt c])
               (RawArray (labelled_values lv)) = Inr blocks"
    and init: "Frame_init (f_class F) (DataTypeBlocks blocks) (InitIndex (f_index F))
                 (InitIndex (f_columns F)) (f_name F) True False False = Inr F'"
    by (auto simp: FrameAssign_call_def ebind_eq_Inr)
  from ro nr obtain t sv where t: "target_index (f_index F) row_key = Inr t"
    and sv: "Series_reindex s t fill_value = Inr sv" and lv: "lv = LSeries sv"
    by (auto simp: reindex_other_like_iloc_def unpack_iloc_key_def axis_not_multi_is_int
        Let_def ebind_eq_Inr)
  from inv have li: "length (ix_values (f_index F)) = fst (tb_shape (f_blocks F))"
    by (simp add: frame_inv_def)
  from target_index_multi [OF t nr] rs li
  have lt: "ix_values t = map (\<lambda>p. ix_values (f_index F) ! p) rs" and dr: "distinct rs"
    by auto
  from extract_iloc_assign_positions [OF as]
  have cs: "key_positions (KInt c) (snd (tb_shape (f_blocks F))) = Inr [c]"
    by (auto split: if_splits)
  have "tb_columns blocks ! ([c] ! 0) ! (rs ! i)
        = value_cell (RawArray (labelled_values lv)) (key_is_int (KInt c) \<and> \<not> key_is_int row_key) i 0"
    using i by (intro extract_iloc_assign_cell [OF as rs cs dr]) simp_all
  then have "tb_columns blocks ! c ! (rs ! i) = s_values sv ! i"
    using nr lv by simp
  also have "\<dots> = Series_at s fill_value (ix_values (f_index F) ! (rs ! i))"
    using Series_reindex_values [OF sv] lt i by simp
  finally show ?thesis
    using Frame_init_blocks [OF init] by (simp add: Frame_cell_def)
qed

lemma assign_frame_region:
  assumes inv: "frame_inv F"
    and call: "FrameAssign_call F (CTuple [row_key, column_key]) (ValFrame v) fill_value = Inr F'"
    and rs: "key_positions row_key (fst (tb_shape (f_blocks F))) = Inr rs"
    and cs: "key_positions column_key (snd (tb_shape (f_blocks F))) = Inr cs"
    and i: "i < length rs" and j: "j < length cs"
  shows "Frame_cell F' (rs ! i) (cs ! j)
         = Frame_at v fill_value (ix_values (f_index F) ! (rs ! i)) (ix_values (f_columns F) ! (cs ! j))"
proof -
  from call obtain lv blocks where
    ro: "reindex_other_like_iloc F (LFrame v) (CTuple [row_key, column_key]) fill_value = Inr lv"
    and as: "extract_iloc_assign (f_blocks F) (CTuple [row_key, column_key])
               (RawArray (labelled_values lv)) = Inr blocks"
    and init: "Frame_init (f_class F) (DataTypeBlocks blocks) (InitIndex (f_index F))
                 (InitIndex (f_columns F)) (f_name F) True False False = Inr F'"
    by (auto simp: FrameAssign_call_def ebind_eq_Inr)
  from ro have nr: "\<not> key_is_int row_key" and nc: "\<not> key_is_int column_key"
    by (auto simp: reindex_other_like_iloc_def unpack_iloc_key_def axis_not_multi_is_int
        Let_def split: if_splits)
  with ro obtain tc tr fv where tc: "target_index (f_columns F) column_key = Inr tc"
    and tr: "target_index (f_index F) row_key = Inr tr"
    and fv: "Frame_reindex v (InitIndex tr) (InitIndex tc) fill_value = Inr fv"
    and lv: "lv = LFrame fv"
    by (auto simp: reindex_other_like_iloc_def unpack_iloc_key_def axis_not_multi_is_int
        Let_def ebind_eq_Inr)
  from inv have li: "length (ix_values (f_index F)) = fst (tb_shape (f_blocks F))"
    and lc: "length (ix_values (f_columns F)) = snd (tb_shape (f_blocks F))"
    by (simp_all add: frame_inv_def)
  from target_index_multi [OF tr nr] rs li
  have ltr: "ix_values tr = map (\<lambda>p. ix_values (f_index F) ! p) rs" and dr: "distinct rs"
    by auto
  from target_index_multi [OF tc nc] cs lc
  have ltc: "ix_values tc = map (\<lambda>p. ix_values (f_columns F) ! p) cs" and dc: "distinct cs"
    by auto
  have "tb_columns blocks ! (cs ! j) ! (rs ! i)
        = value_cell (RawArray (labelled_values lv)) (key_is_int column_key \<and> \<not> key_is_int row_key) i j"
    by (rule extract_iloc_assign_cell [OF as rs cs dr dc i j])
  also have "\<dots> = Frame_at v fill_value (ix_values (f_index F) ! (rs ! i))
                       (ix_values (f_columns F) ! (cs ! j))"
    using lv Frame_reindex_values [OF fv] ltr ltc i j by simp
  finally show ?thesis
    using Frame_init_blocks [OF init] by (simp add: Frame_cell_def)
qed

lemma assign_refused:
  "key_is_int row_key = key_is_int column_key \<Longrightarrow>
     FrameAssign_call F (CTuple [row_key, column_key]) (ValSeries s) fill_value =
       Inl (Exception ''cannot assign Series with key configuration'')"
  "key_is_int row_key \<or> key_is_int column_key \<Longrightarrow>
     FrameAssign_call F (CTuple [row_key, column_key]) (ValFrame v) fill_value =
       Inl (Exception ''cannot assign Frame with key configuration'')"
  by (auto simp: FrameAssign_call_def reindex_other_like_iloc_def unpack_iloc_key_def
      axis_not_multi_is_int Let_def)

lemma assign_single_key:
  "FrameAssign_call F (CKey row_key) value fill_value =
     FrameAssign_call F (CTuple [row_key, KNone]) value fill_value"
  by (cases "value")
     (simp_all add: FrameAssign_call_def reindex_other_like_iloc_def extract_iloc_assign_def
        unpack_iloc_key_def)

lemma distinct_selected:
  assumes "distinct xs" and "distinct ps" and "\<And>p. p \<in> set ps \<Longrightarrow> p < length xs"
  shows "distinct (map (\<lambda>p. xs ! p) ps)"
  using assms by (auto simp: distinct_map inj_on_def nth_eq_iff_index_eq)

lemma target_index_ok:
  assumes d: "distinct (ix_values ix)"
    and ps: "key_positions key (length (ix_values ix)) = Inr ps"
    and dp: "distinct ps" and nk: "\<not> key_is_int key"
  shows "\<exists>t. target_index ix key = Inr t \<and> ix_values t = map (\<lambda>p. ix_values ix ! p) ps
            \<and> ix_STATIC t = ix_STATIC ix"
proof (cases "key = KNone")
  case True
  have "map (\<lambda>p. ix_values ix ! p) [0..<length (ix_values ix)] = ix_values ix"
    by (rule map_nth)
  with True ps show ?thesis by (auto simp: target_index_def)
next
  case False
  have ds: "distinct (map (\<lambda>p. ix_values ix ! p) ps)"
    using d dp key_positions_lt [OF ps] by (rule distinct_selected)
  from False nk obtain x where "Index_extract_iloc ix key =
      ebind (key_positions key (length (ix_values ix)))
        (\<lambda>ps. ebind (Index_init (ix_STATIC ix) (map (\<lambda>p. ix_values ix ! p) ps))
        (\<lambda>ix'. Inr (XIndex ix')))"
    by (cases key) simp_all
  with ps ds show ?thesis
    by (simp add: target_index_def Index_init_def)
qed

lemma Series_reindex_ok:
  assumes "length (s_values s) = length (ix_values (s_index s))" and "distinct (ix_values t)"
  shows "\<exists>v. Series_reindex s t fill_value = Inr v
            \<and> s_values v = map (Series_at s fill_value) (ix_values t)"
proof -
  have "ic_in_range (length (s_values s)) (position_of (ix_values (s_index s)) l)" for l
    using position_of_less [of "ix_values (s_index s)" l] assms(1)
    by (cases "position_of (ix_values (s_index s)) l") simp_all
  then have "list_all (ic_in_range (length (s_values s)))
               (map (position_of (ix_values (s_index s))) (ix_values t))"
    by (simp add: list_all_iff)
  with assms(2) obtain v where v: "Series_reindex s t fill_value = Inr v"
    by (simp add: Series_reindex_def Index_init_def from_correspondence_def Let_def)
  with Series_reindex_values [OF v] show ?thesis by simp
qed

lemma init_axis_ok:
  assumes "distinct (ix_values ix)" and "length (ix_values ix) = n"
  shows "\<exists>c. init_axis st own (InitIndex ix) (Some n) = Inr c \<and> ix_values c = ix_values ix"
  using assms by (auto simp: init_axis_def default_axis_def Index_init_def)

lemma Frame_reindex_ok:
  assumes inv: "frame_inv v"
    and dr: "distinct (ix_values tr)" and dc: "distinct (ix_values tc)"
    and st: "ix_STATIC tc = COLUMN_CONSTRUCTOR_STATIC (f_class v)"
  shows "\<exists>v'. Frame_reindex v (InitIndex tr) (InitIndex tc) fill_value = Inr v'"
proof -
  let ?tb = "f_blocks v"
  let ?ric = "map (position_of (ix_values (f_index v))) (ix_values tr)"
  let ?cic = "map (position_of (ix_values (f_columns v))) (ix_values tc)"
  let ?cols = "map (\<lambda>c. map (\<lambda>r. resize_cell (tb_columns ?tb) fill_value c r) ?ric) ?cic"
  let ?tb' = "\<lparr>tb_blocks = [Arr2 (length ?ric) ?cols], tb_shape = (length ?ric, length ?cic)\<rparr>"
  from inv have li: "length (ix_values (f_index v)) = fst (tb_shape ?tb)"
    and lc: "length (ix_values (f_columns v)) = snd (tb_shape ?tb)"
    by (simp_all add: frame_inv_def)
  have rows: "reindex_rows v (InitIndex tr) = Inr (tr, Some ?ric)"
    using dr by (simp add: reindex_rows_def Index_init_def from_correspondence_def)
  have cols: "reindex_columns v (InitIndex tc) = Inr (tc, Some ?cic)"
    using dc st by (simp add: reindex_columns_def Index_init_def from_correspondence_def)
  have "ic_in_range (fst (tb_shape ?tb)) (position_of (ix_values (f_index v)) l)" for l
    using position_of_less [of "ix_values (f_index v)" l] li
    by (cases "position_of (ix_values (f_index v)) l") simp_all
  then have r1: "list_all (ic_in_range (fst (tb_shape ?tb))) ?ric"
    by (simp add: list_all_iff)
  have "ic_in_range (snd (tb_shape ?tb)) (position_of (ix_values (f_columns v)) l)" for l
    using position_of_less [of "ix_values (f_columns v)" l] lc
    by (cases "position_of (ix_values (f_columns v)) l") simp_all
  then have r2: "list_all (ic_in_range (snd (tb_shape ?tb))) ?cic"
    by (simp add: list_all_iff)
  have resize: "resize_blocks ?tb (Some ?ric) (Some ?cic) fill_value = Inr [Arr2 (length ?ric) ?cols]"
    unfolding resize_blocks_def Let_def using r1 r2 by simp
  have fb: "from_blocks [Arr2 (length ?ric) ?cols] = Inr ?tb'"
    by (simp add: from_blocks_def)
  from init_axis_ok [OF dc, of "snd (tb_shape ?tb')" "COLUMN_CONSTRUCTOR_STATIC (f_class v)" False]
  obtain c where ic: "init_axis (COLUMN_CONSTRUCTOR_STATIC (f_class v)) False (InitIndex tc)
                        (Some (snd (tb_shape ?tb'))) = Inr c"
    and vc: "ix_values c = ix_values tc" by auto
  from init_axis_ok [OF dr, of "fst (tb_shape ?tb')" True False]
  obtain i where ii: "init_axis True False (InitIndex tr) (Some (fst (tb_shape ?tb'))) = Inr i"
    and vi: "ix_values i = ix_values tr" by auto
  have "Frame_init (f_class v) (DataTypeBlocks ?tb') (InitIndex tr) (InitIndex tc) (f_name v)
          True False False
        = Inr \<lparr>f_blocks = ?tb', f_columns = c, f_index = i, f_name = f_name v, f_class = f_class v\<rparr>"
    using vc vi by (intro Frame_init_own_data ic ii) simp_all
  with rows cols resize fb show ?thesis
    by (simp add: Frame_reindex_def)
qed

lemma extract_iloc_assign_ok:
  assumes "key_positions row_key (fst (tb_shape tb)) = Inr rs"
    and "key_positions column_key (snd (tb_shape tb)) = Inr cs"
    and "value_fits v (key_is_int column_key \<and> \<not> key_is_int row_key) (length rs) (length cs)"
  shows "\<exists>blocks. extract_iloc_assign tb (CTuple [row_key, column_key]) v = Inr blocks
           \<and> tb_shape blocks = tb_shape tb"
  using assms by (simp add: extract_iloc_assign_def unpack_iloc_key_def Let_def)

lemma assign_init_ok:
  assumes inv: "frame_inv F" and sh: "tb_shape blocks = tb_shape (f_blocks F)"
  shows "\<exists>F'. Frame_init (f_class F) (DataTypeBlocks blocks) (InitIndex (f_index F))
                 (InitIndex (f_columns F)) (f_name F) True False False = Inr F'"
proof -
  from inv have li: "length (ix_values (f_index F)) = fst (tb_shape blocks)"
    and lc: "length (ix_values (f_columns F)) = snd (tb_shape blocks)"
    and di: "distinct (ix_values (f_index F))"
    and dc: "distinct (ix_values (f_columns F))"
    and si: "ix_STATIC (f_index F)"
    and sc: "ix_STATIC (f_columns F) = COLUMN_CONSTRUCTOR_STATIC (f_class F)"
    by (simp_all add: frame_inv_def sh)
  have ic: "init_axis (COLUMN_CONSTRUCTOR_STATIC (f_class F)) False (InitIndex (f_columns F))
              (Some (snd (tb_shape blocks))) = Inr (f_columns F)"
    using dc sc lc by (simp add: init_axis_same)
  have ii: "init_axis True False (InitIndex (f_index F)) (Some (fst (tb_shape blocks))) = Inr (f_index F)"
    using di si li by (simp add: init_axis_same)
  have "Frame_init (f_class F) (DataTypeBlocks blocks) (InitIndex (f_index F))
                 (InitIndex (f_columns F)) (f_name F) True False False
        = Inr \<lparr>f_blocks = blocks, f_columns = f_columns F, f_index = f_index F,
               f_name = f_name F, f_class = f_class F\<rparr>"
    using li lc by (intro Frame_init_own_data ic ii) simp_all
  then show ?thesis by blast
qed

lemma assign_series_succeeds:
  assumes inv: "frame_inv F" and sv: "series_inv s"
    and rs: "key_positions row_key (fst (tb_shape (f_blocks F))) = Inr rs"
    and cs: "key_positions column_key (snd (tb_shape (f_blocks F))) = Inr cs"
    and dr: "distinct rs" and dc: "distinct cs"
    and one: "key_is_int row_key \<noteq> key_is_int column_key"
  shows "\<exists>F'. FrameAssign_call F (CTuple [row_key, column_key]) (ValSeries s) fill_value = Inr F'"
proof -
  from inv have li: "length (ix_values (f_index F)) = fst (tb_shape (f_blocks F))"
    and lc: "length (ix_values (f_columns F)) = snd (tb_shape (f_blocks F))"
    and di: "distinct (ix_values (f_index F))"
    and dcs: "distinct (ix_values (f_columns F))"
    by (simp_all add: frame_inv_def)
  from sv have ls: "length (s_values s) = length (ix_values (s_index s))"
    by (simp add: series_inv_def)
  show ?thesis
  proof (cases "key_is_int row_key")
    case True
    with one have nc: "\<not> key_is_int column_key" by simp
    from target_index_ok [OF dcs cs [folded lc] dc nc] obtain t where
      t: "target_index (f_columns F) column_key = Inr t"
      and tv: "ix_values t = map (\<lambda>p. ix_values (f_columns F) ! p) cs" by blast
    have dt: "distinct (ix_values t)"
      unfolding tv using dcs dc key_positions_lt [OF cs [folded lc]] by (rule distinct_selected)
    from Series_reindex_ok [OF ls dt, of fill_value] obtain v where
      v: "Series_reindex s t fill_value = Inr v"
      and vv: "s_values v = map (Series_at s fill_value) (ix_values t)" by blast
    have ro: "reindex_other_like_iloc F (LSeries s) (CTuple [row_key, column_key]) fill_value
              = Inr (LSeries v)"
      using True nc t v
      by (simp add: reindex_other_like_iloc_def unpack_iloc_key_def axis_not_multi_is_int Let_def)
    have "value_fits (RawArray (labelled_values (LSeries v)))
            (key_is_int column_key \<and> \<not> key_is_int row_key) (length rs) (length cs)"
      using True nc vv tv by simp
    from extract_iloc_assign_ok [OF rs cs this] obtain blocks where
      b: "extract_iloc_assign (f_blocks F) (CTuple [row_key, column_key])
            (RawArray (labelled_values (LSeries v))) = Inr blocks"
      and sh: "tb_shape blocks = tb_shape (f_blocks F)" by blast
    from assign_init_ok [OF inv sh] ro b show ?thesis
      by (simp add: FrameAssign_call_def)
  next
    case False
    with one have ic: "key_is_int column_key" by simp
    from target_index_ok [OF di rs [folded li] dr False] obtain t where
      t: "target_index (f_index F) row_key = Inr t"
      and tv: "ix_values t = map (\<lambda>p. ix_values (f_index F) ! p) rs" by blast
    have dt: "distinct (ix_values t)"
      unfolding tv using di dr key_positions_lt [OF rs [folded li]] by (rule distinct_selected)
    from Series_reindex_ok [OF ls dt, of fill_value] obtain v where
      v: "Series_reindex s t fill_value = Inr v"
      and vv: "s_values v = map (Series_at s fill_value) (ix_values t)" by blast
    have ro: "reindex_other_like_iloc F (LSeries s) (CTuple [row_key, column_key]) fill_value
              = Inr (LSeries v)"
      using False ic t v
      by (simp add: reindex_other_like_iloc_def unpack_iloc_key_def axis_not_multi_is_int Let_def)
    have "value_fits (RawArray (labelled_values (LSeries v)))
            (key_is_int column_key \<and> \<not> key_is_int row_key) (length rs) (length cs)"
      using False ic vv tv by simp
    from extract_iloc_assign_ok [OF rs cs this] obtain blocks where
      b: "extract_iloc_assign (f_blocks F) (CTuple [row_key, column_key])
            (RawArray (labelled_values (LSeries v))) = Inr blocks"
      and sh: "tb_shape blocks = tb_shape (f_blocks F)" by blast
    from assign_init_ok [OF inv sh] ro b show ?thesis
      by (simp add: FrameAssign_call_def)
  qed
qed

lemma assign_frame_targets:
  assumes inv: "frame_inv F"
    and rs: "key_positions row_key (fst (tb_shape (f_blocks F))) = Inr rs"
    and cs: "key_positions column_key (snd (tb_shape (f_blocks F))) = Inr cs"
    and dr: "distinct rs" and dc: "distinct cs"
    and nr: "\<not> key_is_int row_key" and nc: "\<not> key_is_int column_key"
  shows "\<exists>tr tc. target_index (f_index F) row_key = Inr tr
           \<and> target_index (f_columns F) column_key = Inr tc
           \<and> distinct (ix_values tr) \<and> distinct (ix_values tc)
           \<and> length (ix_values tr) = length rs \<and> length (ix_values tc) = length cs
           \<and> ix_STATIC tc = COLUMN_CONSTRUCTOR_STATIC (f_class F)"
proof -
  from inv have li: "length (ix_values (f_index F)) = fst (tb_shape (f_blocks F))"
    and lc: "length (ix_values (f_columns F)) = snd (tb_shape (f_blocks F))"
    and di: "distinct (ix_values (f_index F))"
    and dcs: "distinct (ix_values (f_columns F))"
    and sc: "ix_STATIC (f_columns F) = COLUMN_CONSTRUCTOR_STATIC (f_class F)"
    by (simp_all add: frame_inv_def)
  from target_index_ok [OF di rs [folded li] dr nr] obtain tr where
    tr: "target_index (f_index F) row_key = Inr tr"
    and trv: "ix_values tr = map (\<lambda>p. ix_values (f_index F) ! p) rs" by blast
  from target_index_ok [OF dcs cs [folded lc] dc nc] obtain tc where
    tc: "target_index (f_columns F) column_key = Inr tc"
    and tcv: "ix_values tc = map (\<lambda>p. ix_values (f_columns F) ! p) cs"
    and tcs: "ix_STATIC tc = ix_STATIC (f_columns F)" by blast
  have dtr: "distinct (ix_values tr)"
    unfolding trv using di dr key_positions_lt [OF rs [folded li]] by (rule distinct_selected)
  have dtc: "distinct (ix_values tc)"
    unfolding tcv using dcs dc key_positions_lt [OF cs [folded lc]] by (rule distinct_selected)
  from tr tc dtr dtc trv tcv tcs sc show ?thesis by simp
qed

lemma assign_frame_succeeds:
  assumes inv: "frame_inv F" and vinv: "frame_inv v" and cl: "f_class v = f_class F"
    and rs: "key_positions row_key (fst (tb_shape (f_blocks F))) = Inr rs"
    and cs: "key_positions column_key (snd (tb_shape (f_blocks F))) = Inr cs"
    and dr: "distinct rs" and dc: "distinct cs"
    and nr: "\<not> key_is_int row_key" and nc: "\<not> key_is_int column_key"
  shows "\<exists>F'. FrameAssign_call F (CTuple [row_key, column_key]) (ValFrame v) fill_value = Inr F'"
proof -
  from assign_frame_targets [OF inv rs cs dr dc nr nc] obtain tr tc where
    tr: "target_index (f_index F) row_key = Inr tr"
    and tc: "target_index (f_columns F) column_key = Inr tc"
    and dtr: "distinct (ix_values tr)" and dtc: "distinct (ix_values tc)"
    and ltr: "length (ix_values tr) = length rs" and ltc: "length (ix_values tc) = length cs"
    and st: "ix_STATIC tc = COLUMN_CONSTRUCTOR_STATIC (f_class F)" by blast
  from Frame_reindex_ok [OF vinv dtr dtc, of fill_value] st cl obtain v' where
    v': "Frame_reindex v (InitIndex tr) (InitIndex tc) fill_value = Inr v'" by auto
  have ro: "reindex_other_like_iloc F (LFrame v) (CTuple [row_key, column_key]) fill_value
            = Inr (LFrame v')"
    using nr nc tr tc v'
    by (simp add: reindex_other_like_iloc_def unpack_iloc_key_def axis_not_multi_is_int Let_def)
  have "value_fits (RawArray (labelled_values (LFrame v')))
          (key_is_int column_key \<and> \<not> key_is_int row_key) (length rs) (length cs)"
    using Frame_reindex_values [OF v'] ltr ltc by (simp add: list_all_iff)
  from extract_iloc_assign_ok [OF rs cs this] obtain blocks where
    b: "extract_iloc_assign (f_blocks F) (CTuple [row_key, column_key])
          (RawArray (labelled_values (LFrame v'))) = Inr blocks"
    and sh: "tb_shape blocks = tb_shape (f_blocks F)" by blast
  from assign_init_ok [OF inv sh] ro b show ?thesis
    by (simp add: FrameAssign_call_def)
qed

lemma assign_frame_static_mismatch:
  assumes inv: "frame_inv F" and cl: "f_class v \<noteq> f_class F"
    and rs: "key_positions row_key (fst (tb_shape (f_blocks F))) = Inr rs"
    and cs: "key_positions column_key (snd (tb_shape (f_blocks F))) = Inr cs"
    and dr: "distinct rs" and dc: "distinct cs"
    and nr: "\<not> key_is_int row_key" and nc: "\<not> key_is_int column_key"
  shows "FrameAssign_call F (CTuple [row_key, column_key]) (ValFrame v) fill_value =
           Inl (Exception ''static status of index does not match expected column static status'')"
proof -
  from assign_frame_targets [OF inv rs cs dr dc nr nc] obtain tr tc where
    tr: "target_index (f_index F) row_key = Inr tr"
    and tc: "target_index (f_columns F) column_key = Inr tc"
    and dtr: "distinct (ix_values tr)" and dtc: "distinct (ix_values tc)"
    and st: "ix_STATIC tc = COLUMN_CONSTRUCTOR_STATIC (f_class F)" by blast
  from cl have "COLUMN_CONSTRUCTOR_STATIC (f_class v) \<noteq> COLUMN_CONSTRUCTOR_STATIC (f_class F)"
    by (cases "f_class v"; cases "f_class F") simp_all
  with st have ne: "ix_STATIC tc \<noteq> COLUMN_CONSTRUCTOR_STATIC (f_class v)" by simp
  have rows: "reindex_rows v (InitIndex tr) =
                Inr (tr, Some (map (position_of (ix_values (f_index v))) (ix_values tr)))"
    using dtr by (simp add: reindex_rows_def Index_init_def from_correspondence_def)
  have "Frame_reindex v (InitIndex tr) (InitIndex tc) fill_value =
          Inl (Exception ''static status of index does not match expected column static status'')"
    using rows ne by (simp add: Frame_reindex_def reindex_columns_def)
  then show ?thesis
    using nr nc tr tc
    by (simp add: FrameAssign_call_def reindex_other_like_iloc_def unpack_iloc_key_def
        axis_not_multi_is_int Let_def)
qed

text \<open>
  Claim C7, as stated, fails: not every assignment of a labelled container reindexes the
  value and overwrites the selected cells. A Series assigned to a region selected by two
  multiple-selecting keys is refused with an exception before any reindexing, also when
  the Frame and the Series satisfy their invariants.
\<close>

theorem assign_series_counterexample:
  "frame_inv example_frame \<and> series_inv example_series
   \<and> FrameAssign_call example_frame (CTuple [KNone, KNone]) (ValSeries example_series) ENaN =
       Inl (Exception ''cannot assign Series with key configuration'')"
  by (simp add: FrameAssign_call_def reindex_other_like_iloc_def unpack_iloc_key_def
      extract_axis_not_multi_def frame_inv_def example_frame_def tb_wf_def series_inv_def
      example_series_def)

text \<open>
  Claim C7, amended: on a Frame that satisfies the Frame invariant, with keys that select
  the row positions \<open>rs\<close> and the column positions \<open>cs\<close>, none of them twice: the assignment
  of a Series (as many values as labels) under exactly one single-selecting key, and the
  assignment of a Frame of the container's class that satisfies the Frame invariant under
  two multiple-selecting keys, return a Frame in which every cell of the selected region
  holds the value the source has at the label of the cell's column (a Series along a row),
  of the cell's row (a Series along a column) or of the cell's row and column (a Frame),
  and the fill value where the source has no such label: the value is realigned by label,
  whatever its order. A Series under two keys of the same kind, and a Frame under a
  single-selecting key, are refused with the exception ``cannot assign \<dots> with key
  configuration''; a Frame of the other class (static against grow-only columns) under
  two multiple-selecting keys is refused with the exception ``static status of index does
  not match expected column static status''. A single key is a row key with the column
  key \<^verbatim>\<open>None\<close>.
\<close>

theorem assign_realigns_by_label:
  assumes inv: "frame_inv F"
    and rs: "key_positions row_key (fst (tb_shape (f_blocks F))) = Inr rs"
    and cs: "key_positions column_key (snd (tb_shape (f_blocks F))) = Inr cs"
    and dr: "distinct rs" and dc: "distinct cs"
  shows "(series_inv s \<and> key_is_int row_key \<and> \<not> key_is_int column_key \<longrightarrow>
            (\<exists>F'. FrameAssign_call F (CTuple [row_key, column_key]) (ValSeries s) fill_value = Inr F'
                \<and> (\<forall>i < length rs. \<forall>j < length cs.
                      Frame_cell F' (rs ! i) (cs ! j)
                        = Series_at s fill_value (ix_values (f_columns F) ! (cs ! j)))))
       \<and> (series_inv s \<and> \<not> key_is_int row_key \<and> key_is_int column_key \<longrightarrow>
            (\<exists>F'. FrameAssign_call F (CTuple [row_key, column_key]) (ValSeries s) fill_value = Inr F'
                \<and> (\<forall>i < length rs. \<forall>j < length cs.
                      Frame_cell F' (rs ! i) (cs ! j)
                        = Series_at s fill_value (ix_values (f_index F) ! (rs ! i)))))
       \<and> (frame_inv v \<and> f_class v = f_class F \<and> \<not> key_is_int row_key \<and> \<not> key_is_int column_key \<longrightarrow>
            (\<exists>F'. FrameAssign_call F (CTuple [row_key, column_key]) (ValFrame v) fill_value = Inr F'
                \<and> (\<forall>i < length rs. \<forall>j < length cs.
                      Frame_cell F' (rs ! i) (cs ! j)
                        = Frame_at v fill_value (ix_values (f_index F) ! (rs ! i))
                            (ix_values (f_columns F) ! (cs ! j)))))
       \<and> (key_is_int row_key = key_is_int column_key \<longrightarrow>
            FrameAssign_call F (CTuple [row_key, column_key]) (ValSeries s) fill_value =
              Inl (Exception ''cannot assign Series with key configuration''))
       \<and> (key_is_int row_key \<or> key_is_int column_key \<longrightarrow>
            FrameAssign_call F (CTuple [row_key, column_key]) (ValFrame v) fill_value =
              Inl (Exception ''cannot assign Frame with key configuration''))
       \<and> (f_class v \<noteq> f_class F \<and> \<not> key_is_int row_key \<and> \<not> key_is_int column_key \<longrightarrow>
            FrameAssign_call F (CTuple [row_key, column_key]) (ValFrame v) fill_value =
              Inl (Exception ''static status of index does not match expected column static status''))
       \<and> FrameAssign_call F (CKey row_key) value fill_value =
           FrameAssign_call F (CTuple [row_key, KNone]) value fill_value"
proof -
  have row: "\<exists>F'. FrameAssign_call F (CTuple [row_key, column_key]) (ValSeries s) fill_value = Inr F'
                \<and> (\<forall>i < length rs. \<forall>j < length cs.
                      Frame_cell F' (rs ! i) (cs ! j)
                        = Series_at s fill_value (ix_values (f_columns F) ! (cs ! j)))"
    if sv: "series_inv s" and k: "key_is_int row_key" "\<not> key_is_int column_key"
  proof -
    from k have one: "key_is_int row_key \<noteq> key_is_int column_key" by simp
    from assign_series_succeeds [OF inv sv rs cs dr dc one, of fill_value] obtain F' where
      c: "FrameAssign_call F (CTuple [row_key, column_key]) (ValSeries s) fill_value = Inr F'"
      by blast
    from k(1) obtain r where r: "row_key = KInt r" by (cases row_key) auto
    with rs have rr: "rs = [r]" by (auto split: if_splits)
    have "Frame_cell F' (rs ! i) (cs ! j)
            = Series_at s fill_value (ix_values (f_columns F) ! (cs ! j))"
      if "i < length rs" "j < length cs" for i j
      using assign_series_row [OF inv c [unfolded r] k(2) cs that(2)] that(1) rr by simp
    with c show ?thesis by blast
  qed
  have col: "\<exists>F'. FrameAssign_call F (CTuple [row_key, column_key]) (ValSeries s) fill_value = Inr F'
                \<and> (\<forall>i < length rs. \<forall>j < length cs.
                      Frame_cell F' (rs ! i) (cs ! j)
                        = Series_at s fill_value (ix_values (f_index F) ! (rs ! i)))"
    if sv: "series_inv s" and k: "\<not> key_is_int row_key" "key_is_int column_key"
  proof -
    from k have one: "key_is_int row_key \<noteq> key_is_int column_key" by simp
    from assign_series_succeeds [OF inv sv rs cs dr dc one, of fill_value] obtain F' where
      c: "FrameAssign_call F (CTuple [row_key, column_key]) (ValSeries s) fill_value = Inr F'"
      by blast
    from k(2) obtain c' where c': "column_key = KInt c'" by (cases column_key) auto
    with cs have cc: "cs = [c']" by (auto split: if_splits)
    have "Frame_cell F' (rs ! i) (cs ! j)
            = Series_at s fill_value (ix_values (f_index F) ! (rs ! i))"
      if "i < length rs" "j < length cs" for i j
      using assign_series_column [OF inv c [unfolded c'] k(1) rs that(1)] that(2) cc by simp
    with c show ?thesis by blast
  qed
  have frm: "\<exists>F'. FrameAssign_call F (CTuple [row_key, column_key]) (ValFrame v) fill_value = Inr F'
                \<and> (\<forall>i < length rs. \<forall>j < length cs.
                      Frame_cell F' (rs ! i) (cs ! j)
                        = Frame_at v fill_value (ix_values (f_index F) ! (rs ! i))
                            (ix_values (f_columns F) ! (cs ! j)))"
    if vi: "frame_inv v" and cl: "f_class v = f_class F"
      and k: "\<not> key_is_int row_key" "\<not> key_is_int column_key"
  proof -
    from assign_frame_succeeds [OF inv vi cl rs cs dr dc k, of fill_value] obtain F' where
      c: "FrameAssign_call F (CTuple [row_key, column_key]) (ValFrame v) fill_value = Inr F'"
      by blast
    have "Frame_cell F' (rs ! i) (cs ! j)
            = Frame_at v fill_value (ix_values (f_index F) ! (rs ! i))
                (ix_values (f_columns F) ! (cs ! j))"
      if "i < length rs" "j < length cs" for i j
      by (rule assign_frame_region [OF inv c rs cs that])
    with c show ?thesis by blast
  qed
  have mis: "FrameAssign_call F (CTuple [row_key, column_key]) (ValFrame v) fill_value =
              Inl (Exception ''static status of index does not match expected column static status'')"
    if "f_class v \<noteq> f_class F" "\<not> key_is_int row_key" "\<not> key_is_int column_key"
    by (rule assign_frame_static_mismatch [OF inv that(1) rs cs dr dc that(2,3)])
  note ref = assign_refused [of row_key column_key F]
  show ?thesis
  proof (intro conjI impI)
    show "FrameAssign_call F (CKey row_key) value fill_value =
           FrameAssign_call F (CTuple [row_key, KNone]) value fill_value"
      by (rule assign_single_key)
  qed (use row col frm mis ref in \<open>simp_all\<close>)
qed

theorem assign_realigns_by_label_witness:
  "frame_inv example_frame \<and> series_inv example_series
   \<and> key_positions (KInt 1) (fst (tb_shape (f_blocks example_frame))) = Inr [1]
   \<and> key_positions KNone (snd (tb_shape (f_blocks example_frame))) = Inr [0, 1, 2]
   \<and> FrameAssign_call example_frame (CTuple [KInt 1, KNone]) (ValSeries example_series) ENaN
       = Inr assigned_example
   \<and> Frame_cell assigned_example 1 2 = EInt 10
   \<and> Series_at example_series ENaN (ix_values (f_columns example_frame) ! 2) = EInt 10
   \<and> Frame_cell assigned_example 1 0 = ENaN
   \<and> Series_at example_series ENaN (ix_values (f_columns example_frame) ! 0) = ENaN"
proof -
  have inv: "frame_inv example_frame"
    by (simp add: frame_inv_def example_frame_def tb_wf_def)
  have sv: "series_inv example_series"
    by (simp add: series_inv_def example_series_def)
  have rs: "key_positions (KInt 1) (fst (tb_shape (f_blocks example_frame))) = Inr [1]"
    by (simp add: example_frame_def)
  have cs: "key_positions KNone (snd (tb_shape (f_blocks example_frame))) = Inr [0, 1, 2]"
    by (simp add: example_frame_def upt_rec)
  have call: "FrameAssign_call example_frame (CTuple [KInt 1, KNone]) (ValSeries example_series) ENaN
       = Inr assigned_example"
    by (simp add: FrameAssign_call_def reindex_other_like_iloc_def unpack_iloc_key_def
        extract_axis_not_multi_def target_index_def Series_reindex_def Index_init_def
        from_correspondence_def extract_iloc_assign_def assigned_cell_def
        Frame_init_def init_blocks_def init_axis_def
        example_frame_def example_series_def assigned_example_def tb_columns_def Let_def upt_rec)
  have s2: "Series_at example_series ENaN (ix_values (f_columns example_frame) ! 2) = EInt 10"
    by (simp add: Series_at_def example_series_def example_frame_def)
  have s0: "Series_at example_series ENaN (ix_values (f_columns example_frame) ! 0) = ENaN"
    by (simp add: Series_at_def example_series_def example_frame_def)
  have d1: "distinct [1::nat]" by simp
  have d3: "distinct [0::nat, 1, 2]" by simp
  from assign_realigns_by_label [OF inv rs cs d1 d3, of example_series ENaN] sv call
  have cells: "\<forall>i < length [1::nat]. \<forall>j < length [0::nat, 1, 2].
                 Frame_cell assigned_example ([1] ! i) ([0, 1, 2] ! j)
                   = Series_at example_series ENaN (ix_values (f_columns example_frame) ! ([0, 1, 2] ! j))"
    by simp
  from cells [rule_format, of 0 2] have c2: "Frame_cell assigned_example 1 2
                   = Series_at example_series ENaN (ix_values (f_columns example_frame) ! 2)"
    by simp
  from cells [rule_format, of 0 0] have c0: "Frame_cell assigned_example 1 0
                   = Series_at example_series ENaN (ix_values (f_columns example_frame) ! 0)"
    by simp
  from inv sv rs cs call s2 s0 c2 c0 show ?thesis by simp
qed

section \<open>A bare label is never taken for an index\<close>

text \<open>
  The extraction reads a bare label where \<^verbatim>\<open>_extract_iloc\<close> is given a single position.
  The branches that would hand such a label on as an index are never reached: a
  single-position key cuts one row (or column), so the result is a Series over the other
  axis, or an element.
\<close>

lemma init_axis_error:
  "init_axis st own arg count = Inl e \<Longrightarrow> e = ConstructionError"
  by (auto simp: init_axis_def default_axis_def Index_init_def split: index_init.splits if_splits)

lemma Frame_init_own_error:
  assumes "Frame_init cls (DataTypeBlocks tb) index columns name True own_index own_columns = Inl e"
  shows "e = ConstructionError \<or> (\<exists>msg. e = RuntimeError msg)"
proof (cases "init_axis (COLUMN_CONSTRUCTOR_STATIC cls) own_columns columns (Some (snd (tb_shape tb)))")
  case (Inl a)
  with assms init_axis_error [OF Inl] show ?thesis
    by (simp add: Frame_init_def init_blocks_def)
next
  case c: (Inr c)
  show ?thesis
  proof (cases "init_axis True own_index index (Some (fst (tb_shape tb)))")
    case (Inl a)
    with assms c init_axis_error [OF Inl] show ?thesis
      by (simp add: Frame_init_def init_blocks_def)
  next
    case (Inr i)
    with assms c show ?thesis
      by (auto simp: Frame_init_def init_blocks_def Let_def split: if_splits)
  qed
qed

lemma Series_init_error: "Series_init vs ix name = Inl e \<Longrightarrow> e = ShapeError"
  by (auto simp: Series_init_def split: if_splits)

lemma Frame_extract_label_never_index:
  "Frame_extract F row_key column_key \<noteq> Inl (TypeError ''a label is not an index'')"
proof
  assume a: "Frame_extract F row_key column_key = Inl (TypeError ''a label is not an index'')"
  show False
  proof (cases "tb_extract (f_blocks F) row_key column_key")
    case (Inl e)
    then have "e = IndexError"
      by (cases "key_positions row_key (fst (tb_shape (f_blocks F)))";
          cases "key_positions column_key (snd (tb_shape (f_blocks F)))";
          cases row_key; cases column_key)
         (auto simp: tb_extract_def split: if_splits)
    with a Inl show False by (simp add: Frame_extract_def)
  next
    case (Inr ct)
    from tb_extract_Inr [OF Inr] obtain rs cs where
      rs: "key_positions row_key (fst (tb_shape (f_blocks F))) = Inr rs"
      and cs: "key_positions column_key (snd (tb_shape (f_blocks F))) = Inr cs"
      and c: "ct = (if key_is_int row_key \<and> key_is_int column_key
                    then Element (tb_columns (f_blocks F) ! hd cs ! hd rs)
                    else Blocks \<lparr>tb_blocks = map (\<lambda>c. Arr1 (map (\<lambda>r. tb_columns (f_blocks F) ! c ! r) rs)) cs,
                                 tb_shape = (length rs, length cs)\<rparr>)"
      by blast
    show False
    proof (cases "key_is_int row_key \<and> key_is_int column_key")
      case True
      with a Inr c show False by (simp add: Frame_extract_def)
    next
      case False
      define blocks where "blocks = \<lparr>tb_blocks = map (\<lambda>c. Arr1 (map (\<lambda>r. tb_columns (f_blocks F) ! c ! r) rs)) cs,
                                 tb_shape = (length rs, length cs)\<rparr>"
      from False c have cb: "ct = Blocks blocks" by (simp add: blocks_def)
      have sh: "tb_shape blocks = (length rs, length cs)" by (simp add: blocks_def)
      show False
      proof (cases "extract_axis (f_index F) row_key")
        case (Inl e)
        then have "e = IndexError \<or> e = ConstructionError"
          by (cases row_key)
             (auto simp: extract_axis_def Index_init_def ebind_def
                split: if_splits sum.splits)
        with a Inr cb Inl show False by (auto simp: Frame_extract_def)
      next
        case ix: (Inr index)
        show False
        proof (cases "extract_axis (f_columns F) column_key")
          case (Inl e)
          then have "e = IndexError \<or> e = ConstructionError"
            by (cases column_key)
               (auto simp: extract_axis_def Index_init_def ebind_def
                  split: if_splits sum.splits)
          with a Inr cb ix Inl show False by (auto simp: Frame_extract_def)
        next
          case cx: (Inr columns)
          show False
          proof (cases "key_is_int row_key")
            case True
            with False have nc: "\<not> key_is_int column_key" by simp
            from extract_axis_multi [OF cx nc] obtain c' where c': "columns = XIndex c'" by blast
            from True rs have "length rs = 1" by (rule key_positions_int)
            with a Inr cb ix cx True nc sh c' show False
              by (auto simp: Frame_extract_def axis_not_multi_is_int Let_def Series_over_def
                  ebind_def split: if_splits sum.splits dest: Series_init_error)
          next
            case nr: False
            from extract_axis_multi [OF ix nr] obtain i' where i': "index = XIndex i'" by blast
            show False
            proof (cases "key_is_int column_key")
              case True
              from True cs have "length cs = 1" by (rule key_positions_int)
              with a Inr cb ix cx True nr sh i' show False
                by (auto simp: Frame_extract_def axis_not_multi_is_int Let_def Series_over_def
                    ebind_def split: if_splits sum.splits dest: Series_init_error)
            next
              case False
              from extract_axis_multi [OF cx False] obtain c' where c': "columns = XIndex c'" by blast
              from a Frame_extract_both_multi [OF Inr [unfolded cb] ix [unfolded i'] cx [unfolded c']] nr False
              show False
                by (auto simp: axis_not_multi_is_int ebind_def split: sum.splits
                    dest: Frame_init_own_error)
            qed
          qed
        qed
      qed
    qed
  qed
qed

end
